theory Spec2Isabelle
  imports Complex_Main "HOL-Library.Monad_Syntax" "HOL-Library.Log_Nat"
begin

section \<open>Piece catalog (js/tetris-pieces.js)\<close>

text \<open>
  The seven piece types are the strings \<^verbatim>\<open>'I','O','T','S','Z','J','L'\<close> of the source
  (\<open>O\<close> alone is taken by relation composition, hence the suffix).
  A piece object carries \<^verbatim>\<open>type, x, y, rotation, color, shape\<close>; \<^verbatim>\<open>color\<close> and \<^verbatim>\<open>shape\<close>
  are set once by the constructor from the constant tables and never written again,
  so the model keeps them as functions of the type.
\<close>

datatype piece_type = I_piece | O_piece | T_piece | S_piece | Z_piece | J_piece | L_piece

definition PIECE_COLORS :: "piece_type \<Rightarrow> string" where
  "PIECE_COLORS t = (case t of
       I_piece \<Rightarrow> ''#00ffff'' | O_piece \<Rightarrow> ''#ffff00'' | T_piece \<Rightarrow> ''#800080''
     | S_piece \<Rightarrow> ''#00ff00'' | Z_piece \<Rightarrow> ''#ff0000'' | J_piece \<Rightarrow> ''#0000ff''
     | L_piece \<Rightarrow> ''#ffa500'')"

definition PIECE_SHAPES :: "piece_type \<Rightarrow> nat list list list" where
  "PIECE_SHAPES t = (case t of
     I_piece \<Rightarrow> [[[0,0,0,0],[1,1,1,1],[0,0,0,0],[0,0,0,0]],
           [[0,0,1,0],[0,0,1,0],[0,0,1,0],[0,0,1,0]],
           [[0,0,0,0],[0,0,0,0],[1,1,1,1],[0,0,0,0]],
           [[0,1,0,0],[0,1,0,0],[0,1,0,0],[0,1,0,0]]]
   | O_piece \<Rightarrow> [[[0,0,0,0],[0,1,1,0],[0,1,1,0],[0,0,0,0]]]
   | T_piece \<Rightarrow> [[[0,0,0,0],[0,1,0,0],[1,1,1,0],[0,0,0,0]],
           [[0,0,0,0],[0,1,0,0],[0,1,1,0],[0,1,0,0]],
           [[0,0,0,0],[0,0,0,0],[1,1,1,0],[0,1,0,0]],
           [[0,0,0,0],[0,1,0,0],[1,1,0,0],[0,1,0,0]]]
   | S_piece \<Rightarrow> [[[0,0,0,0],[0,1,1,0],[1,1,0,0],[0,0,0,0]],
           [[0,0,0,0],[0,1,0,0],[0,1,1,0],[0,0,1,0]],
           [[0,0,0,0],[0,0,0,0],[0,1,1,0],[1,1,0,0]],
           [[0,0,0,0],[1,0,0,0],[1,1,0,0],[0,1,0,0]]]
   | Z_piece \<Rightarrow> [[[0,0,0,0],[1,1,0,0],[0,1,1,0],[0,0,0,0]],
           [[0,0,0,0],[0,0,1,0],[0,1,1,0],[0,1,0,0]],
           [[0,0,0,0],[0,0,0,0],[1,1,0,0],[0,1,1,0]],
           [[0,0,0,0],[0,1,0,0],[1,1,0,0],[1,0,0,0]]]
   | J_piece \<Rightarrow> [[[0,0,0,0],[1,0,0,0],[1,1,1,0],[0,0,0,0]],
           [[0,0,0,0],[0,1,1,0],[0,1,0,0],[0,1,0,0]],
           [[0,0,0,0],[0,0,0,0],[1,1,1,0],[0,0,1,0]],
           [[0,0,0,0],[0,1,0,0],[0,1,0,0],[1,1,0,0]]]
   | L_piece \<Rightarrow> [[[0,0,0,0],[0,0,1,0],[1,1,1,0],[0,0,0,0]],
           [[0,0,0,0],[0,1,0,0],[0,1,0,0],[0,1,1,0]],
           [[0,0,0,0],[0,0,0,0],[1,1,1,0],[1,0,0,0]],
           [[0,0,0,0],[1,1,0,0],[0,1,0,0],[0,1,0,0]]])"

record piece =
  ptype :: piece_type
  px :: int
  py :: int
  rotation :: int

text \<open>\<^verbatim>\<open>new TetrisPiece(type, x = 3, y = 0)\<close>\<close>

definition TetrisPiece :: "piece_type \<Rightarrow> int \<Rightarrow> int \<Rightarrow> piece" where
  "TetrisPiece t x0 y0 = \<lparr>ptype = t, px = x0, py = y0, rotation = 0\<rparr>"

definition color :: "piece \<Rightarrow> string" where
  "color p = PIECE_COLORS (ptype p)"

definition shape :: "piece \<Rightarrow> nat list list list" where
  "shape p = PIECE_SHAPES (ptype p)"

text \<open>
  \<^verbatim>\<open>getCurrentShape\<close> is \<^verbatim>\<open>this.shape[this.rotation]\<close>: outside the table JavaScript
  yields \<^verbatim>\<open>undefined\<close> (here \<open>None\<close>); \<^verbatim>\<open>getBlocks\<close> then reads \<^verbatim>\<open>shape[row]\<close> of
  \<^verbatim>\<open>undefined\<close> and throws a TypeError. Throughout, a result \<open>None\<close> of an operation
  means that the call throws instead of returning.
\<close>

definition getCurrentShape :: "piece \<Rightarrow> nat list list option" where
  "getCurrentShape p =
     (if 0 \<le> rotation p \<and> rotation p < int (length (shape p))
      then Some (shape p ! nat (rotation p)) else None)"

definition move :: "int \<Rightarrow> int \<Rightarrow> piece \<Rightarrow> piece" where
  "move dx dy p = p\<lparr>px := px p + dx, py := py p + dy\<rparr>"

definition getBlocks :: "piece \<Rightarrow> (int \<times> int) list option" where
  "getBlocks p = do {
     sh \<leftarrow> getCurrentShape p;
     Some (concat (map (\<lambda>row. concat (map (\<lambda>col.
             if sh ! row ! col \<noteq> 0 then [(px p + int col, py p + int row)] else [])
           [0..<4])) [0..<4]))
   }"

definition clone :: "piece \<Rightarrow> piece" where
  "clone p = (TetrisPiece (ptype p) (px p) (py p))\<lparr>rotation := rotation p\<rparr>"

text \<open>
  \<^verbatim>\<open>isTSpin(board)\<close>: the corner test with the literal bounds 10 and 20 of the source.
  \<^verbatim>\<open>board[y] && board[y][x]\<close> is falsy for a missing row, a missing cell and \<^verbatim>\<open>null\<close>.
\<close>

definition truthy_at :: "'a option list list \<Rightarrow> int \<Rightarrow> int \<Rightarrow> bool" where
  "truthy_at b cx cy =
     (0 \<le> cy \<and> nat cy < length b \<and> 0 \<le> cx \<and> nat cx < length (b ! nat cy)
      \<and> b ! nat cy ! nat cx \<noteq> None)"

definition isTSpin :: "piece \<Rightarrow> 'a option list list \<Rightarrow> bool" where
  "isTSpin p b =
     (if ptype p \<noteq> T_piece then False
      else let corners = [(px p, py p), (px p + 2, py p), (px p, py p + 2), (px p + 2, py p + 2)];
               occupiedCorners = length (filter (\<lambda>(cx, cy).
                   cx < 0 \<or> cx \<ge> 10 \<or> cy < 0 \<or> cy \<ge> 20 \<or> truthy_at b cx cy) corners)
           in occupiedCorners \<ge> 3)"

subsection \<open>Wall-kick tables\<close>

definition WALL_KICK_JLSTZ :: "((int \<times> int) \<times> (int \<times> int) list) list" where
  "WALL_KICK_JLSTZ =
    [((0,1), [(-1,0), (-1,1), (0,-2), (-1,-2)]),
     ((1,0), [(1,0), (1,-1), (0,2), (1,2)]),
     ((1,2), [(1,0), (1,-1), (0,2), (1,2)]),
     ((2,1), [(-1,0), (-1,1), (0,-2), (-1,-2)]),
     ((2,3), [(1,0), (1,1), (0,-2), (1,-2)]),
     ((3,2), [(-1,0), (-1,-1), (0,2), (-1,2)]),
     ((3,0), [(-1,0), (-1,-1), (0,2), (-1,2)]),
     ((0,3), [(1,0), (1,1), (0,-2), (1,-2)])]"

definition WALL_KICK_I :: "((int \<times> int) \<times> (int \<times> int) list) list" where
  "WALL_KICK_I =
    [((0,1), [(-2,0), (1,0), (-2,-1), (1,2)]),
     ((1,0), [(2,0), (-1,0), (2,1), (-1,-2)]),
     ((1,2), [(-1,0), (2,0), (-1,2), (2,-1)]),
     ((2,1), [(1,0), (-2,0), (1,-2), (-2,1)]),
     ((2,3), [(2,0), (-1,0), (2,1), (-1,-2)]),
     ((3,2), [(-2,0), (1,0), (-2,-1), (1,2)]),
     ((3,0), [(1,0), (-2,0), (1,-2), (-2,1)]),
     ((0,3), [(-1,0), (2,0), (-1,2), (2,-1)])]"

text \<open>
  The string key built from the two rotation numbers (\<^verbatim>\<open>'0->1'\<close>, ...) names an entry
  exactly when the pair is one of the eight listed; a missing entry gives \<^verbatim>\<open>[]\<close> through \<^verbatim>\<open>|| []\<close>.
\<close>

definition getWallKickData :: "piece_type \<Rightarrow> int \<Rightarrow> int \<Rightarrow> (int \<times> int) list" where
  "getWallKickData pieceType fromRotation toRotation =
     (if pieceType = O_piece then [(0,0)]
      else let dataKey = (if pieceType = I_piece then WALL_KICK_I else WALL_KICK_JLSTZ)
           in (0,0) # (case map_of dataKey (fromRotation, toRotation) of
                         Some ks \<Rightarrow> ks | None \<Rightarrow> []))"

section \<open>JavaScript numbers\<close>

text \<open>
  A JavaScript number is an IEEE 754 double. The model writes a finite double as a pair
  \<open>(m, s)\<close> that stands for the rational \<open>m / 2 ^ s\<close>; several pairs stand for the same number,
  and numbers are compared by value (\<open>dless\<close>), never as pairs. Every arithmetic operation
  computes the exact result and rounds it to 53 significant bits, to the nearest value and
  to the even one on a tie. The exponent range is not modelled: the numbers of this program
  are products and sums of a few weights, random values in \<open>[0,1)\<close> and integers of the size
  of the board, far from overflow, and a product of a double with an integer cannot fall
  below the grid of the smallest doubles. Integers below \<open>2 ^ 53\<close> are doubles, exactly.
\<close>

type_synonym double = "int \<times> nat"

text \<open>Rounding of a non-negative integer to 53 significant bits, ties to even.\<close>

definition round53 :: "int \<Rightarrow> int" where
  "round53 n =
     (let b = nat (bitlen n)
      in if b \<le> 53 then n
         else let sh = b - 53;
                  q = n div 2 ^ sh;
                  r = n mod 2 ^ sh;
                  half = 2 ^ (sh - 1)
              in (if r > half \<or> (r = half \<and> odd q) then q + 1 else q) * 2 ^ sh)"

definition fl :: "double \<Rightarrow> double" where
  "fl d = (sgn (fst d) * round53 \<bar>fst d\<bar>, snd d)"

definition dmul :: "double \<Rightarrow> double \<Rightarrow> double" where
  "dmul x y = fl (fst x * fst y, snd x + snd y)"

definition dadd :: "double \<Rightarrow> double \<Rightarrow> double" where
  "dadd x y =
     (let s = max (snd x) (snd y)
      in fl (fst x * 2 ^ (s - snd x) + fst y * 2 ^ (s - snd y), s))"

definition dless :: "double \<Rightarrow> double \<Rightarrow> bool" where
  "dless x y = (fst x * 2 ^ snd y < fst y * 2 ^ snd x)"

definition double_of_int :: "int \<Rightarrow> double" where
  "double_of_int n = (n, 0)"

text \<open>\<^verbatim>\<open>Math.floor\<close>\<close>

definition dfloor :: "double \<Rightarrow> int" where
  "dfloor d = fst d div 2 ^ snd d"

section \<open>Random numbers\<close>

text \<open>
  \<^verbatim>\<open>Math.random()\<close> is global state of the runtime. The model carries the sequence of values
  it is going to return: \<open>r 0\<close> is the next value, and a call leaves \<open>\<lambda>i. r (Suc i)\<close>.
  The runtime promises a double with \<open>0 \<le> r i < 1\<close>: a pair \<open>(m, s)\<close> with \<open>0 \<le> m < 2 ^ s\<close>,
  where \<open>m\<close> has at most 53 significant bits and \<open>s\<close> is at most 1074, the exponent of the
  smallest double. Theorems that need the promise assume \<open>unit_draws r\<close>.
\<close>

type_synonym rng = "nat \<Rightarrow> double"

definition is_unit_double :: "double \<Rightarrow> bool" where
  "is_unit_double d =
     (0 \<le> fst d \<and> fst d < 2 ^ snd d \<and> snd d \<le> 1074 \<and> round53 (fst d) = fst d)"

definition unit_draws :: "rng \<Rightarrow> bool" where
  "unit_draws r = (\<forall>i. is_unit_double (r i))"

definition next_rng :: "rng \<Rightarrow> rng" where
  "next_rng r = (\<lambda>i. r (Suc i))"

text \<open>
  \<^verbatim>\<open>Math.floor(Math.random() * k)\<close>: the product is a product of doubles, rounded before
  the floor is taken.
\<close>

definition random_below :: "nat \<Rightarrow> rng \<Rightarrow> nat \<times> rng" where
  "random_below k r = (nat (dfloor (dmul (r 0) (double_of_int (int k)))), next_rng r)"

section \<open>Piece generator\<close>

text \<open>The bag is a JavaScript array; \<^verbatim>\<open>pop()\<close> takes its last element.\<close>

record generator =
  bag :: "piece_type list"

definition swap :: "nat \<Rightarrow> nat \<Rightarrow> 'a list \<Rightarrow> 'a list" where
  "swap i j xs = xs[i := xs ! j, j := xs ! i]"

text \<open>
  The Fisher-Yates loop \<^verbatim>\<open>for (i = length - 1; i > 0; i--)\<close>, entered at index \<open>i\<close>.
  With draws in \<open>[0,1)\<close> the index \<open>j\<close> is at most \<open>i\<close>, inside the array.
\<close>

fun shuffle_from :: "nat \<Rightarrow> 'a list \<Rightarrow> rng \<Rightarrow> 'a list \<times> rng" where
  "shuffle_from 0 xs r = (xs, r)"
| "shuffle_from (Suc i) xs r =
     (let (j, r') = random_below (Suc i + 1) r
      in shuffle_from i (swap (Suc i) j xs) r')"

definition pieces :: "piece_type list" where
  "pieces = [I_piece, O_piece, T_piece, S_piece, Z_piece, J_piece, L_piece]"

definition refillBag :: "generator \<Rightarrow> rng \<Rightarrow> generator \<times> rng" where
  "refillBag g r =
     (let (b, r') = shuffle_from (length pieces - 1) pieces r
      in (g\<lparr>bag := b\<rparr>, r'))"

definition getNext :: "generator \<Rightarrow> rng \<Rightarrow> piece \<times> generator \<times> rng" where
  "getNext g r =
     (let (g1, r1) = (if length (bag g) = 0 then refillBag g r else (g, r))
      in (TetrisPiece (last (bag g1)) 3 0, g1\<lparr>bag := butlast (bag g1)\<rparr>, r1))"

text \<open>
  \<^verbatim>\<open>preview(count)\<close> works on \<^verbatim>\<open>tempBag = [...this.bag]\<close>, a fresh array, and never
  assigns \<^verbatim>\<open>this.bag\<close>. When the copy runs empty it pushes the seven types and shuffles
  them with new calls of \<^verbatim>\<open>Math.random()\<close>.
\<close>

fun preview_loop :: "nat \<Rightarrow> piece_type list \<Rightarrow> piece_type list \<Rightarrow> rng
                     \<Rightarrow> piece_type list \<times> rng" where
  "preview_loop 0 tempBag acc r = (acc, r)"
| "preview_loop (Suc n) tempBag acc r =
     (let (tb, r') = (if length tempBag = 0
                      then shuffle_from (length pieces - 1) pieces r
                      else (tempBag, r))
      in preview_loop n (butlast tb) (acc @ [last tb]) r')"

definition preview :: "nat \<Rightarrow> generator \<Rightarrow> rng \<Rightarrow> piece_type list \<times> generator \<times> rng" where
  "preview count g r =
     (let tempBag = bag g;
          (pv, r') = preview_loop count tempBag [] r
      in (pv, g, r'))"

text \<open>The types of \<open>n\<close> successive \<^verbatim>\<open>getNext()\<close> calls.\<close>

fun draw_types :: "nat \<Rightarrow> generator \<Rightarrow> rng \<Rightarrow> piece_type list \<times> generator \<times> rng" where
  "draw_types 0 g r = ([], g, r)"
| "draw_types (Suc n) g r =
     (let (p, g1, r1) = getNext g r;
          (ts, g2, r2) = draw_types n g1 r1
      in (ptype p # ts, g2, r2))"

section \<open>Board engine (class TetrisGameEngine)\<close>

text \<open>
  A cell of the board is \<^verbatim>\<open>null\<close> (\<open>None\<close>) or an object \<^verbatim>\<open>{color, type}\<close>, where the type
  is a piece type or the marker \<^verbatim>\<open>'garbage'\<close>.
\<close>

datatype cell_type = Of_piece piece_type | Garbage

record cell =
  cell_color :: string
  cell_type :: cell_type

type_synonym grid = "cell option list list"

record stats =
  totalPieces :: int
  totalLines :: int
  singles :: int
  doubles :: int
  triples :: int
  tetrises :: int
  tSpins :: int
  perfectClears :: int

text \<open>
  The fields of the engine object. \<open>random\<close> is not a field of the source object: it is the
  state of \<^verbatim>\<open>Math.random()\<close>, threaded with the engine because spawning a piece may refill
  the bag. The sound callback and \<^verbatim>\<open>window.audioManager\<close> write no engine field and are
  left out. Times are milliseconds.
\<close>

record engine =
  width :: nat
  height :: nat
  board :: grid
  currentPiece :: "piece option"
  nextPiece :: "piece option"
  holdPiece :: "piece option"
  canHold :: bool
  pieceGenerator :: generator
  score :: int
  level :: int
  lines :: int
  combo :: int
  lastClearWasTSpin :: bool
  gameOver :: bool
  dropTimer :: real
  dropInterval :: real
  lockDelay :: real
  lockTimer :: real
  isLocking :: bool
  stats :: stats
  random :: rng

definition createEmptyBoard :: "nat \<Rightarrow> nat \<Rightarrow> grid" where
  "createEmptyBoard w h = replicate h (replicate w None)"

text \<open>
  \<^verbatim>\<open>isColliding(piece)\<close>. After the bounds test the source reads \<^verbatim>\<open>this.board[y][x]\<close>:
  a missing row makes that read throw; a missing cell is \<^verbatim>\<open>undefined\<close>, which is
  \<^verbatim>\<open>!== null\<close>, so it counts as a collision.
\<close>

fun colliding_blocks :: "nat \<Rightarrow> nat \<Rightarrow> 'a option list list \<Rightarrow> (int \<times> int) list \<Rightarrow> bool option" where
  "colliding_blocks w h b [] = Some False"
| "colliding_blocks w h b ((bx, by) # bs) =
     (if bx < 0 \<or> bx \<ge> int w \<or> by < 0 \<or> by \<ge> int h then Some True
      else if nat by \<ge> length b then None
      else if nat bx \<ge> length (b ! nat by) then Some True
      else if b ! nat by ! nat bx \<noteq> None then Some True
      else colliding_blocks w h b bs)"

definition colliding :: "nat \<Rightarrow> nat \<Rightarrow> 'a option list list \<Rightarrow> piece \<Rightarrow> bool option" where
  "colliding w h b p = do { blocks \<leftarrow> getBlocks p; colliding_blocks w h b blocks }"

definition isColliding :: "engine \<Rightarrow> piece option \<Rightarrow> bool option" where
  "isColliding e q = (case q of None \<Rightarrow> None
                      | Some p \<Rightarrow> colliding (width e) (height e) (board e) p)"

definition resetLockTimer :: "engine \<Rightarrow> engine" where
  "resetLockTimer e = e\<lparr>lockTimer := 0, isLocking := False\<rparr>"

definition spawnNewPiece :: "engine \<Rightarrow> engine option" where
  "spawnNewPiece e =
     (let (np, g, r) = getNext (pieceGenerator e) (random e);
          e1 = e\<lparr>currentPiece := nextPiece e, nextPiece := Some np, pieceGenerator := g,
                 random := r, canHold := True, isLocking := False, lockTimer := 0,
                 stats := (stats e)\<lparr>totalPieces := totalPieces (stats e) + 1\<rparr>\<rparr>
      in do {
        c \<leftarrow> isColliding e1 (currentPiece e1);
        Some (if c then e1\<lparr>gameOver := True\<rparr> else e1)
      })"

definition movePiece :: "int \<Rightarrow> int \<Rightarrow> engine \<Rightarrow> (engine \<times> bool) option" where
  "movePiece dx dy e =
     (case currentPiece e of
        None \<Rightarrow> Some (e, False)
      | Some p \<Rightarrow>
          if gameOver e then Some (e, False)
          else let originalX = px p; originalY = py p;
                   p1 = move dx dy p;
                   e1 = e\<lparr>currentPiece := Some p1\<rparr>
               in do {
                 c \<leftarrow> isColliding e1 (currentPiece e1);
                 if c then Some (e1\<lparr>currentPiece := Some (p1\<lparr>px := originalX, py := originalY\<rparr>)\<rparr>, False)
                 else Some (if dy = 0 then resetLockTimer e1 else e1, True)
               })"

text \<open>
  JavaScript's \<^verbatim>\<open>%\<close> truncates towards zero: the result has the sign of the dividend.
\<close>

definition js_rem :: "int \<Rightarrow> int \<Rightarrow> int" where
  "js_rem a b = sgn a * (\<bar>a\<bar> mod \<bar>b\<bar>)"

text \<open>
  The wall-kick loop of \<^verbatim>\<open>rotatePiece\<close>: each offset is added to the piece, tested, and
  subtracted again when the placement collides. \<open>Some (e', True)\<close> is the return from inside
  the loop, \<open>Some (e', False)\<close> is falling out of it.
\<close>

fun try_kicks :: "engine \<Rightarrow> (int \<times> int) list \<Rightarrow> (engine \<times> bool) option" where
  "try_kicks e [] = Some (e, False)"
| "try_kicks e ((dx, dy) # ks) =
     (case currentPiece e of
        None \<Rightarrow> None
      | Some p \<Rightarrow>
          let p1 = p\<lparr>px := px p + dx, py := py p + dy\<rparr>;
              e1 = e\<lparr>currentPiece := Some p1\<rparr>
          in do {
            c \<leftarrow> isColliding e1 (currentPiece e1);
            if \<not> c then Some (resetLockTimer e1, True)
            else try_kicks (e1\<lparr>currentPiece := Some (p1\<lparr>px := px p1 - dx, py := py p1 - dy\<rparr>)\<rparr>) ks
          })"

definition rotatePiece :: "int \<Rightarrow> engine \<Rightarrow> (engine \<times> bool) option" where
  "rotatePiece direction e =
     (case currentPiece e of
        None \<Rightarrow> Some (e, False)
      | Some p \<Rightarrow>
          if gameOver e then Some (e, False)
          else let originalRotation = rotation p;
                   newRotation = js_rem (originalRotation + direction + int (length (shape p)))
                                        (int (length (shape p)));
                   kickData = getWallKickData (ptype p) originalRotation newRotation;
                   e1 = e\<lparr>currentPiece := Some (p\<lparr>rotation := newRotation\<rparr>)\<rparr>
               in do {
                 (e2, done) \<leftarrow> try_kicks e1 kickData;
                 if done then Some (e2, True)
                 else Some (e2\<lparr>currentPiece :=
                              map_option (\<lambda>q. q\<lparr>rotation := originalRotation\<rparr>) (currentPiece e2)\<rparr>,
                            False)
               })"

definition isPerfectClear :: "engine \<Rightarrow> bool" where
  "isPerfectClear e = list_all (\<lambda>row. list_all (\<lambda>c. c = None) row) (board e)"

definition updateLevel :: "engine \<Rightarrow> engine" where
  "updateLevel e =
     (let newLevel = lines e div 10 + 1
      in if newLevel > level e
         then (let e1 = e\<lparr>level := newLevel\<rparr>
               in e1\<lparr>dropInterval := max 50 (1000 - (real_of_int (level e1) - 1) * 50)\<rparr>)
         else e)"

text \<open>
  \<^verbatim>\<open>clearLines()\<close>. The scan reads \<^verbatim>\<open>this.board[y]\<close> for \<open>y < height\<close> and throws on a
  missing row. Each full row index, in increasing order, is removed with
  \<^verbatim>\<open>splice(row, 1)\<close> and an empty row is put in front with \<^verbatim>\<open>unshift\<close>.
\<close>

definition is_full :: "'a option list \<Rightarrow> bool" where
  "is_full row = list_all (\<lambda>c. c \<noteq> None) row"

definition splice_unshift :: "nat \<Rightarrow> nat \<Rightarrow> grid \<Rightarrow> grid" where
  "splice_unshift w row b = replicate w None # (take row b @ drop (Suc row) b)"

definition bump_clear_stats :: "nat \<Rightarrow> stats \<Rightarrow> stats" where
  "bump_clear_stats k st =
     (if k = 1 then st\<lparr>singles := singles st + 1\<rparr>
      else if k = 2 then st\<lparr>doubles := doubles st + 1\<rparr>
      else if k = 3 then st\<lparr>triples := triples st + 1\<rparr>
      else if k = 4 then st\<lparr>tetrises := tetrises st + 1\<rparr>
      else st)"

definition clearLines :: "engine \<Rightarrow> (engine \<times> int) option" where
  "clearLines e =
     (if height e > length (board e) then None
      else let fullRows = filter (\<lambda>y. is_full (board e ! y)) [0..<height e]
           in if length fullRows = 0 then Some (e\<lparr>combo := 0\<rparr>, 0)
              else let e1 = e\<lparr>board := fold (splice_unshift (width e)) fullRows (board e)\<rparr>;
                       e2 = e1\<lparr>lines := lines e1 + int (length fullRows)\<rparr>;
                       e3 = e2\<lparr>stats := (stats e2)\<lparr>totalLines := totalLines (stats e2) + int (length fullRows)\<rparr>\<rparr>;
                       e4 = e3\<lparr>combo := combo e3 + 1\<rparr>;
                       e5 = e4\<lparr>stats := bump_clear_stats (length fullRows) (stats e4)\<rparr>;
                       e6 = (if isPerfectClear e5
                             then e5\<lparr>stats := (stats e5)\<lparr>perfectClears := perfectClears (stats e5) + 1\<rparr>\<rparr>
                             else e5)
                   in Some (updateLevel e6, int (length fullRows)))"

text \<open>The two \<^verbatim>\<open>switch\<close> tables of \<^verbatim>\<open>calculateScore\<close>; no case matches: the value stays 0.\<close>

definition score_table :: "int \<Rightarrow> bool \<Rightarrow> int" where
  "score_table n isTSpin_flag =
     (if isTSpin_flag
      then (if n = 0 then 400 else if n = 1 then 800 else if n = 2 then 1200
            else if n = 3 then 1600 else 0)
      else (if n = 1 then 100 else if n = 2 then 300 else if n = 3 then 500
            else if n = 4 then 800 else 0))"

definition calculateScore :: "int \<Rightarrow> bool \<Rightarrow> engine \<Rightarrow> engine" where
  "calculateScore n isTSpin_flag e =
     (let e1 = (if isTSpin_flag
                then e\<lparr>stats := (stats e)\<lparr>tSpins := tSpins (stats e) + 1\<rparr>, lastClearWasTSpin := True\<rparr>
                else e\<lparr>lastClearWasTSpin := False\<rparr>);
          baseScore0 = score_table n isTSpin_flag;
          baseScore1 = (if combo e1 > 1 then baseScore0 + 50 * (combo e1 - 1) else baseScore0);
          baseScore2 = (if isPerfectClear e1 then baseScore1 * 10 else baseScore1)
      in e1\<lparr>score := score e1 + baseScore2 * level e1\<rparr>)"

text \<open>
  \<^verbatim>\<open>lockPiece()\<close>. A block inside the bounds is written with \<^verbatim>\<open>this.board[y][x] = {...}\<close>;
  the write throws when the row is missing. Rows are created with \<open>width\<close> cells everywhere
  in the source, so a write beyond the end of a row (which would grow the row) does not
  arise; the model gives \<open>None\<close> there as well.
\<close>

fun place_blocks :: "nat \<Rightarrow> nat \<Rightarrow> 'a \<Rightarrow> (int \<times> int) list \<Rightarrow> 'a option list list
                      \<Rightarrow> 'a option list list option" where
  "place_blocks w h c [] b = Some b"
| "place_blocks w h c ((bx, by) # bs) b =
     (if by \<ge> 0 \<and> by < int h \<and> bx \<ge> 0 \<and> bx < int w
      then (if nat by \<ge> length b \<or> nat bx \<ge> length (b ! nat by) then None
            else place_blocks w h c bs (b[nat by := (b ! nat by)[nat bx := Some c]]))
      else place_blocks w h c bs b)"

definition piece_cell :: "piece \<Rightarrow> cell" where
  "piece_cell p = \<lparr>cell_color = color p, cell_type = Of_piece (ptype p)\<rparr>"

definition lockPiece :: "engine \<Rightarrow> engine option" where
  "lockPiece e =
     (case currentPiece e of
        None \<Rightarrow> Some e
      | Some p \<Rightarrow> do {
          blocks \<leftarrow> getBlocks p;
          b1 \<leftarrow> place_blocks (width e) (height e) (piece_cell p) blocks (board e);
          let e1 = e\<lparr>board := b1\<rparr>;
          let isTSpin_flag = isTSpin p (board e1);
          (e2, clearedLines) \<leftarrow> clearLines e1;
          spawnNewPiece (calculateScore clearedLines isTSpin_flag e2)
        })"

text \<open>
  The call \<^verbatim>\<open>engine.holdPiece()\<close>, as the callers write it. The class gives the method and
  the field that stores the held piece the same name. The constructor assigns
  \<^verbatim>\<open>this.holdPiece = null\<close>, so every engine has an own property \<^verbatim>\<open>holdPiece\<close>, and the
  property hides the method, which is a property of the prototype. The call reads the
  field: its value is \<^verbatim>\<open>null\<close> or a piece object, neither of them a function, and calling
  it throws a \<^verbatim>\<open>TypeError\<close>. The body of the method is never entered.
\<close>

definition holdPiece_call :: "engine \<Rightarrow> (engine \<times> bool) option" where
  "holdPiece_call e = (case holdPiece e of None \<Rightarrow> None | Some heldPiece \<Rightarrow> None)"

text \<open>The two \<^verbatim>\<open>switch\<close> tables of \<^verbatim>\<open>getAttackLines\<close>.\<close>

definition attack_table :: "int \<Rightarrow> bool \<Rightarrow> int" where
  "attack_table n isTSpin_flag =
     (if isTSpin_flag
      then (if n = 0 then 0 else if n = 1 then 2 else if n = 2 then 4
            else if n = 3 then 6 else 0)
      else (if n = 1 then 0 else if n = 2 then 1 else if n = 3 then 2
            else if n = 4 then 4 else 0))"

definition getAttackLines :: "int \<Rightarrow> bool \<Rightarrow> engine \<Rightarrow> int" where
  "getAttackLines n isTSpin_flag e =
     (let attack0 = attack_table n isTSpin_flag;
          attack1 = (if combo e > 1 then attack0 + min (combo e - 1) 4 else attack0);
          attack2 = (if isPerfectClear e then attack1 + 10 else attack1)
      in attack2)"

text \<open>
  \<^verbatim>\<open>receiveAttack(lines)\<close>. \<^verbatim>\<open>shift()\<close> removes the first row and does nothing on an empty
  array. A garbage row is \<^verbatim>\<open>Array(width).fill(cell)\<close> with \<^verbatim>\<open>garbageLine[hole] = null\<close>;
  an index equal to the length appends. An index beyond the length needs a random value of
  1 or more, which \<^verbatim>\<open>Math.random()\<close> never returns; the model has no value for the sparse
  array that would result and gives \<open>None\<close>.
\<close>

definition shift :: "'a list \<Rightarrow> 'a list" where
  "shift xs = (case xs of [] \<Rightarrow> [] | _ # rest \<Rightarrow> rest)"

definition garbage_cell :: cell where
  "garbage_cell = \<lparr>cell_color = ''#666666'', cell_type = Garbage\<rparr>"

definition garbageLine :: "nat \<Rightarrow> nat \<Rightarrow> cell option list option" where
  "garbageLine w hole =
     (let filled = replicate w (Some garbage_cell)
      in if hole < length filled then Some (filled[hole := None])
         else if hole = length filled then Some (filled @ [None])
         else None)"

fun push_garbage :: "nat \<Rightarrow> nat \<Rightarrow> grid \<Rightarrow> rng \<Rightarrow> (grid \<times> rng) option" where
  "push_garbage 0 w b r = Some (b, r)"
| "push_garbage (Suc k) w b r =
     (let (hole, r') = random_below w r
      in do {
        g \<leftarrow> garbageLine w hole;
        push_garbage k w (b @ [g]) r'
      })"

definition receiveAttack :: "int \<Rightarrow> engine \<Rightarrow> engine option" where
  "receiveAttack n e =
     (if n \<le> 0 then Some e
      else do {
        let b1 = (shift ^^ nat n) (board e);
        (b2, r) \<leftarrow> push_garbage (nat n) (width e) b1 (random e);
        let e1 = e\<lparr>board := b2, random := r\<rparr>;
        (case currentPiece e1 of
           None \<Rightarrow> Some e1
         | Some p \<Rightarrow> do {
             c \<leftarrow> isColliding e1 (Some p);
             Some (if c then e1\<lparr>gameOver := True\<rparr> else e1)
           })
      })"

text \<open>The constructor \<^verbatim>\<open>new TetrisGameEngine(width, height)\<close> with \<^verbatim>\<open>initializeGame()\<close>.\<close>

definition initializeGame :: "engine \<Rightarrow> engine option" where
  "initializeGame e =
     (let e1 = e\<lparr>board := createEmptyBoard (width e) (height e)\<rparr>;
          (np, g, r) = getNext (pieceGenerator e1) (random e1)
      in spawnNewPiece (e1\<lparr>nextPiece := Some np, pieceGenerator := g, random := r\<rparr>))"

definition TetrisGameEngine :: "nat \<Rightarrow> nat \<Rightarrow> rng \<Rightarrow> engine option" where
  "TetrisGameEngine w h r =
     (let (g, r') = refillBag \<lparr>bag = []\<rparr> r
      in initializeGame
           \<lparr>width = w, height = h, board = createEmptyBoard w h,
            currentPiece = None, nextPiece = None, holdPiece = None, canHold = True,
            pieceGenerator = g, score = 0, level = 1, lines = 0, combo = 0,
            lastClearWasTSpin = False, gameOver = False, dropTimer = 0, dropInterval = 1000,
            lockDelay = 500, lockTimer = 0, isLocking = False,
            stats = \<lparr>totalPieces = 0, totalLines = 0, singles = 0, doubles = 0, triples = 0,
                     tetrises = 0, tSpins = 0, perfectClears = 0\<rparr>,
            random = r'\<rparr>)"

section \<open>Facts about pieces and collision\<close>

definition valid_rotation :: "piece \<Rightarrow> bool" where
  "valid_rotation p = (0 \<le> rotation p \<and> rotation p < int (length (shape p)))"

lemma length_shape: "length (shape p) = (if ptype p = O_piece then 1 else 4)"
  by (cases "ptype p") (simp_all add: shape_def PIECE_SHAPES_def)

lemma getBlocks_Some_iff: "(\<exists>bs. getBlocks p = Some bs) = valid_rotation p"
  by (simp add: getBlocks_def getCurrentShape_def valid_rotation_def)

lemma getBlocks_rows:
  assumes "getBlocks p = Some bs" "(bx, by) \<in> set bs"
  shows "py p \<le> by \<and> by < py p + 4 \<and> px p \<le> bx \<and> bx < px p + 4"
  using assms by (auto simp: getBlocks_def split: bind_splits if_splits)

lemma rot_cases: "0 \<le> (r::int) \<Longrightarrow> r < 4 \<Longrightarrow> r = 0 \<or> r = 1 \<or> r = 2 \<or> r = 3"
  by arith

lemma getBlocks_nonempty_of_type:
  assumes "getBlocks p = Some bs" "rotation p = 0 \<or> rotation p = 1 \<or> rotation p = 2 \<or> rotation p = 3"
    "ptype p \<noteq> O_piece"
  shows "bs \<noteq> []"
  using assms
  by (cases "ptype p")
     (auto simp: getBlocks_def getCurrentShape_def shape_def PIECE_SHAPES_def upt_rec)

lemma getBlocks_nonempty:
  assumes "getBlocks p = Some bs"
  shows "bs \<noteq> []"
proof -
  from assms have v: "valid_rotation p" using getBlocks_Some_iff by blast
  show ?thesis
  proof (cases "ptype p = O_piece")
    case True
    with v have "rotation p = 0" by (simp add: valid_rotation_def length_shape)
    with True assms show ?thesis
      by (auto simp: getBlocks_def getCurrentShape_def shape_def PIECE_SHAPES_def upt_rec)
  next
    case False
    with v have "rotation p = 0 \<or> rotation p = 1 \<or> rotation p = 2 \<or> rotation p = 3"
      by (simp add: valid_rotation_def length_shape rot_cases)
    with False assms show ?thesis using getBlocks_nonempty_of_type by blast
  qed
qed

lemma colliding_blocks_False_bounds:
  "colliding_blocks w h b bs = Some False \<Longrightarrow> (bx, by) \<in> set bs
   \<Longrightarrow> 0 \<le> bx \<and> bx < int w \<and> 0 \<le> by \<and> by < int h"
  by (induction w h b bs rule: colliding_blocks.induct) (auto split: if_splits)

lemma colliding_blocks_total:
  "h \<le> length b \<Longrightarrow> \<exists>c. colliding_blocks w h b bs = Some c"
  by (induction w h b bs rule: colliding_blocks.induct) auto

lemma colliding_total:
  "h \<le> length b \<Longrightarrow> valid_rotation p \<Longrightarrow> \<exists>c. colliding w h b p = Some c"
  using getBlocks_Some_iff[of p] colliding_blocks_total[of h b w]
  by (auto simp: colliding_def)

lemma movePiece_down_measure:
  assumes "movePiece 0 1 e = Some (e', True)"
  shows "height e' = height e \<and>
         (\<exists>p p'. currentPiece e = Some p \<and> currentPiece e' = Some p' \<and> py p' = py p + 1
                  \<and> py p' < int (height e))"
proof -
  from assms obtain p where p: "currentPiece e = Some p" and ng: "\<not> gameOver e"
    by (auto simp: movePiece_def split: option.splits if_splits)
  let ?p1 = "move 0 1 p"
  from assms p ng have c: "colliding (width e) (height e) (board e) ?p1 = Some False"
    and e': "e' = e\<lparr>currentPiece := Some ?p1\<rparr>"
    by (auto simp: movePiece_def isColliding_def Let_def split: bind_splits if_splits)
  from c obtain bs where bs: "getBlocks ?p1 = Some bs"
    and cb: "colliding_blocks (width e) (height e) (board e) bs = Some False"
    by (auto simp: colliding_def split: bind_splits)
  from getBlocks_nonempty[OF bs] obtain bx "by" where m: "(bx, by) \<in> set bs"
    by (cases bs) auto
  from getBlocks_rows[OF bs m] colliding_blocks_False_bounds[OF cb m]
  have "py ?p1 < int (height e)" by arith
  with p e' show ?thesis by (simp add: move_def)
qed

section \<open>Rotation with wall kicks\<close>

lemma js_rem_nonneg: "0 \<le> a \<Longrightarrow> 0 < b \<Longrightarrow> js_rem a b = a mod b"
  by (cases "a = 0") (simp_all add: js_rem_def)

lemma set_currentPiece_same: "currentPiece e = Some q \<Longrightarrow> e\<lparr>currentPiece := Some q\<rparr> = e"
  by (cases e) simp

text \<open>The piece moved by a kick offset.\<close>

definition kicked :: "piece \<Rightarrow> int \<times> int \<Rightarrow> piece" where
  "kicked q k = q\<lparr>px := px q + fst k, py := py q + snd k\<rparr>"

lemma valid_rotation_kicked: "valid_rotation (kicked q k) = valid_rotation q"
  by (simp add: valid_rotation_def kicked_def shape_def)

lemma try_kicks_find:
  assumes "currentPiece e = Some q" "valid_rotation q" "height e \<le> length (board e)"
  shows "try_kicks e ks =
     Some (case List.find (\<lambda>k. colliding (width e) (height e) (board e) (kicked q k) = Some False) ks of
             None \<Rightarrow> (e, False)
           | Some k \<Rightarrow> (resetLockTimer (e\<lparr>currentPiece := Some (kicked q k)\<rparr>), True))"
  using assms
proof (induction ks)
  case Nil
  then show ?case by simp
next
  case (Cons k ks)
  obtain dx dy where k: "k = (dx, dy)" by (cases k)
  from Cons.prems colliding_total[of "height e" "board e" "kicked q k" "width e"]
  obtain c where c: "colliding (width e) (height e) (board e) (kicked q k) = Some c"
    by (auto simp: valid_rotation_kicked)
  have undo: "kicked q k\<lparr>px := px (kicked q k) - dx, py := py (kicked q k) - dy\<rparr> = q"
    by (simp add: kicked_def k)
  show ?case
  proof (cases c)
    case True
    with c k Cons.prems Cons.IH undo show ?thesis
      by (simp add: isColliding_def Let_def kicked_def set_currentPiece_same)
  next
    case False
    with c k Cons.prems show ?thesis
      by (simp add: isColliding_def Let_def kicked_def)
  qed
qed

section \<open>Hard drop\<close>

text \<open>
  \<^verbatim>\<open>while (this.movePiece(0, 1)) dropDistance++\<close>. Every successful step moves the piece
  one row down and leaves it inside the board, so the loop ends.
\<close>

function drop_loop :: "engine \<Rightarrow> int \<Rightarrow> (engine \<times> int) option" where
  "drop_loop e dropDistance =
     (case movePiece 0 1 e of
        None \<Rightarrow> None
      | Some (e', moved) \<Rightarrow>
          if moved then drop_loop e' (dropDistance + 1) else Some (e', dropDistance))"
  by pat_completeness auto
termination
proof (relation "measure (\<lambda>(e, d). nat (int (height e)
                  - (case currentPiece e of Some p \<Rightarrow> py p | None \<Rightarrow> 0)))")
  show "wf (measure (\<lambda>(e, d). nat (int (height e)
                  - (case currentPiece e of Some p \<Rightarrow> py p | None \<Rightarrow> 0))))"
    by simp
next
  fix e :: engine and dropDistance :: int and x2 :: "engine \<times> bool" and x1 :: engine and x2a :: bool
  assume "movePiece 0 1 e = Some x2" "(x1, x2a) = x2" "x2a"
  then have "movePiece 0 1 e = Some (x1, True)" by auto
  from movePiece_down_measure[OF this]
  show "((x1, dropDistance + 1), (e, dropDistance))
        \<in> measure (\<lambda>(e, d). nat (int (height e)
                  - (case currentPiece e of Some p \<Rightarrow> py p | None \<Rightarrow> 0)))"
    by auto
qed

definition hardDrop :: "engine \<Rightarrow> (engine \<times> int) option" where
  "hardDrop e =
     (if currentPiece e = None \<or> gameOver e then Some (e, 0)
      else do {
        (e1, dropDistance) \<leftarrow> drop_loop e 0;
        e2 \<leftarrow> lockPiece e1;
        Some (e2\<lparr>score := score e2 + dropDistance * 2\<rparr>, dropDistance)
      })"

definition softDrop :: "engine \<Rightarrow> (engine \<times> bool) option" where
  "softDrop e = movePiece 0 1 e"

section \<open>Facts about locking and line clearing\<close>

lemma filter_upt_Suc:
  "filter Q [0..<Suc n] = (if Q 0 then [0] else []) @ map Suc (filter (\<lambda>i. Q (Suc i)) [0..<n])"
proof -
  have "[0..<Suc n] = 0 # map Suc [0..<n]"
    by (simp add: upt_conv_Cons map_Suc_upt del: upt_Suc)
  then show ?thesis by (simp add: filter_map comp_def del: upt_Suc)
qed

lemma splice_unshift_at:
  "splice_unshift w (length pre) (pre @ x # rest) = replicate w None # pre @ rest"
  by (simp add: splice_unshift_def)

lemma fold_splice_unshift:
  "fold (splice_unshift w)
        (map (\<lambda>i. i + length pre) (filter (\<lambda>y. is_full (xs ! y)) [0..<length xs]))
        (pre @ xs @ post)
   = replicate (length (filter is_full xs)) (replicate w None) @ pre
     @ filter (\<lambda>row. \<not> is_full row) xs @ post"
proof (induction xs arbitrary: pre)
  case Nil
  then show ?case by simp
next
  case (Cons x xs)
  have idx: "map (\<lambda>i. i + length pre) (filter (\<lambda>y. is_full ((x # xs) ! y)) [0..<length (x # xs)])
      = (if is_full x then [length pre] else [])
        @ map (\<lambda>i. i + Suc (length pre)) (filter (\<lambda>y. is_full (xs ! y)) [0..<length xs])"
    using filter_upt_Suc[of "\<lambda>y. is_full ((x # xs) ! y)" "length xs"]
    by (simp add: comp_def del: upt_Suc)
  show ?case
  proof (cases "is_full x")
    case True
    have "fold (splice_unshift w)
            (map (\<lambda>i. i + length (replicate w None # pre)) (filter (\<lambda>y. is_full (xs ! y)) [0..<length xs]))
            ((replicate w None # pre) @ xs @ post)
          = replicate (length (filter is_full xs)) (replicate w None) @ (replicate w None # pre)
            @ filter (\<lambda>row. \<not> is_full row) xs @ post"
      by (rule Cons.IH)
    with True idx show ?thesis
      by (simp add: splice_unshift_at replicate_app_Cons_same del: upt_Suc)
  next
    case False
    have "fold (splice_unshift w)
            (map (\<lambda>i. i + length (pre @ [x])) (filter (\<lambda>y. is_full (xs ! y)) [0..<length xs]))
            ((pre @ [x]) @ xs @ post)
          = replicate (length (filter is_full xs)) (replicate w None) @ (pre @ [x])
            @ filter (\<lambda>row. \<not> is_full row) xs @ post"
      by (rule Cons.IH)
    with False idx show ?thesis by (simp del: upt_Suc)
  qed
qed

lemma fold_splice_unshift_board:
  assumes "h \<le> length b"
  shows "fold (splice_unshift w) (filter (\<lambda>y. is_full (b ! y)) [0..<h]) b
   = replicate (length (filter is_full (take h b))) (replicate w None)
     @ filter (\<lambda>row. \<not> is_full row) (take h b) @ drop h b"
proof -
  have "filter (\<lambda>y. is_full (b ! y)) [0..<h] = filter (\<lambda>y. is_full (take h b ! y)) [0..<length (take h b)]"
    using assms by (auto intro!: filter_cong simp: min_def)
  with fold_splice_unshift[of w "[]" "take h b" "drop h b"] show ?thesis by simp
qed

lemma place_blocks_length:
  "place_blocks w h c bs b = Some b' \<Longrightarrow> map length b' = map length b"
proof (induction w h c bs b rule: place_blocks.induct)
  case (1 w h c b)
  then show ?case by simp
next
  case (2 w h c bx "by" bs b)
  then show ?case
    by (auto split: if_splits simp: map_update list_update_same_conv)
qed

lemma place_blocks_total:
  "h \<le> length b \<Longrightarrow> \<forall>i<h. w \<le> length (b ! i) \<Longrightarrow> \<exists>b'. place_blocks w h c bs b = Some b'"
proof (induction w h c bs b rule: place_blocks.induct)
  case (1 w h c b)
  then show ?case by simp
next
  case (2 w h c bx "by" bs b)
  show ?case
  proof (cases "by \<ge> 0 \<and> by < int h \<and> bx \<ge> 0 \<and> bx < int w")
    case True
    with "2.prems" have in_range: "nat by < length b" "nat bx < length (b ! nat by)"
      by (auto simp: nat_less_iff dest!: spec[of _ "nat by"])
    let ?b = "b[nat by := (b ! nat by)[nat bx := Some c]]"
    have "h \<le> length ?b" using "2.prems" by simp
    moreover have "\<forall>i<h. w \<le> length (?b ! i)"
      using "2.prems" in_range by (auto simp: nth_list_update)
    ultimately have "\<exists>b'. place_blocks w h c bs ?b = Some b'"
      using "2.IH"(1) True in_range by auto
    with True in_range show ?thesis by simp
  next
    case False
    with "2.prems" "2.IH"(2) show ?thesis by auto
  qed
qed

lemma updateLevel_frame:
  "board (updateLevel e) = board e \<and> lines (updateLevel e) = lines e
   \<and> combo (updateLevel e) = combo e \<and> width (updateLevel e) = width e
   \<and> height (updateLevel e) = height e \<and> score (updateLevel e) = score e
   \<and> currentPiece (updateLevel e) = currentPiece e \<and> nextPiece (updateLevel e) = nextPiece e
   \<and> gameOver (updateLevel e) = gameOver e
   \<and> lastClearWasTSpin (updateLevel e) = lastClearWasTSpin e
   \<and> level (updateLevel e) = max (level e) (lines e div 10 + 1)"
  by (simp add: updateLevel_def Let_def max_def)

definition cleared_rows :: "nat \<Rightarrow> grid \<Rightarrow> nat" where
  "cleared_rows h b = length (filter is_full (take h b))"

definition cleared_board :: "nat \<Rightarrow> nat \<Rightarrow> grid \<Rightarrow> grid" where
  "cleared_board w h b =
     replicate (cleared_rows h b) (replicate w None)
     @ filter (\<lambda>row. \<not> is_full row) (take h b) @ drop h b"

lemma length_filter_upt_full:
  assumes "h \<le> length b"
  shows "length (filter (\<lambda>y. is_full (b ! y)) [0..<h]) = cleared_rows h b"
proof -
  have "filter is_full (take h b) = map ((!) b) (filter (\<lambda>y. is_full (b ! y)) [0..<h])"
  proof -
    have "take h b = map ((!) b) [0..<h]"
      using assms by (simp add: list_eq_iff_nth_eq)
    then show ?thesis by (simp add: filter_map comp_def)
  qed
  then show ?thesis by (simp add: cleared_rows_def)
qed

lemma clearLines_unfold:
  assumes "height e \<le> length (board e)"
    and "filter (\<lambda>y. is_full (board e ! y)) [0..<height e] = rows" "rows \<noteq> []"
  shows "\<exists>e2. clearLines e = Some (e2, int (length rows))
     \<and> board e2 = fold (splice_unshift (width e)) rows (board e)
     \<and> lines e2 = lines e + int (length rows)
     \<and> combo e2 = combo e + 1
     \<and> width e2 = width e \<and> height e2 = height e \<and> score e2 = score e
     \<and> nextPiece e2 = nextPiece e \<and> currentPiece e2 = currentPiece e
     \<and> level e2 = max (level e) ((lines e + int (length rows)) div 10 + 1)"
proof -
  define e1 where "e1 = e\<lparr>board := fold (splice_unshift (width e)) rows (board e)\<rparr>"
  define e2 where "e2 = e1\<lparr>lines := lines e1 + int (length rows)\<rparr>"
  define e3 where "e3 = e2\<lparr>stats := (stats e2)\<lparr>totalLines := totalLines (stats e2) + int (length rows)\<rparr>\<rparr>"
  define e4 where "e4 = e3\<lparr>combo := combo e3 + 1\<rparr>"
  define e5 where "e5 = e4\<lparr>stats := bump_clear_stats (length rows) (stats e4)\<rparr>"
  define e6 where "e6 = (if isPerfectClear e5
                         then e5\<lparr>stats := (stats e5)\<lparr>perfectClears := perfectClears (stats e5) + 1\<rparr>\<rparr>
                         else e5)"
  have c1: "\<not> height e > length (board e)" using assms(1) by simp
  have c2: "length rows \<noteq> 0" using assms(3) by simp
  have cl: "clearLines e = Some (updateLevel e6, int (length rows))"
    unfolding clearLines_def assms(2) e6_def e5_def e4_def e3_def e2_def e1_def
    by (simp only: Let_def c1 c2 if_False)
  have f: "board e6 = fold (splice_unshift (width e)) rows (board e)"
    "lines e6 = lines e + int (length rows)" "combo e6 = combo e + 1" "width e6 = width e"
    "height e6 = height e" "score e6 = score e" "nextPiece e6 = nextPiece e"
    "currentPiece e6 = currentPiece e" "level e6 = level e"
    unfolding e6_def e5_def e4_def e3_def e2_def e1_def by simp_all
  show ?thesis
    unfolding cl using updateLevel_frame[of e6] by (simp add: f)
qed

lemma clearLines_result:
  assumes "height e \<le> length (board e)"
  shows "\<exists>e2. clearLines e = Some (e2, int (cleared_rows (height e) (board e)))
     \<and> board e2 = cleared_board (width e) (height e) (board e)
     \<and> lines e2 = lines e + int (cleared_rows (height e) (board e))
     \<and> combo e2 = (if cleared_rows (height e) (board e) = 0 then 0 else combo e + 1)
     \<and> width e2 = width e \<and> height e2 = height e \<and> score e2 = score e
     \<and> nextPiece e2 = nextPiece e \<and> currentPiece e2 = currentPiece e
     \<and> level e2 = (if cleared_rows (height e) (board e) = 0 then level e
                    else max (level e) ((lines e + int (cleared_rows (height e) (board e))) div 10 + 1))"
proof (cases "cleared_rows (height e) (board e) = 0")
  case True
  then have "filter is_full (take (height e) (board e)) = []"
    by (simp add: cleared_rows_def)
  then have "filter (\<lambda>row. \<not> is_full row) (take (height e) (board e)) = take (height e) (board e)"
    by (simp add: filter_empty_conv filter_id_conv)
  with True have "cleared_board (width e) (height e) (board e) = board e"
    by (simp add: cleared_board_def)
  with True assms length_filter_upt_full[OF assms] show ?thesis
    by (simp add: clearLines_def Let_def)
next
  case False
  with length_filter_upt_full[OF assms]
  have ne: "filter (\<lambda>y. is_full (board e ! y)) [0..<height e] \<noteq> []" by auto
  from clearLines_unfold[OF assms refl ne] obtain e2 where
    r: "clearLines e = Some (e2, int (length (filter (\<lambda>y. is_full (board e ! y)) [0..<height e])))"
       "board e2 = fold (splice_unshift (width e))
                     (filter (\<lambda>y. is_full (board e ! y)) [0..<height e]) (board e)"
       "lines e2 = lines e + int (length (filter (\<lambda>y. is_full (board e ! y)) [0..<height e]))"
       "combo e2 = combo e + 1"
       "width e2 = width e" "height e2 = height e" "score e2 = score e"
       "nextPiece e2 = nextPiece e" "currentPiece e2 = currentPiece e"
       "level e2 = max (level e)
          ((lines e + int (length (filter (\<lambda>y. is_full (board e ! y)) [0..<height e]))) div 10 + 1)"
    by blast
  have bd: "board e2 = cleared_board (width e) (height e) (board e)"
    unfolding r(2) fold_splice_unshift_board[OF assms] cleared_board_def cleared_rows_def ..
  from r(1,3,4,5,6,7,8,9,10) bd False show ?thesis
    unfolding length_filter_upt_full[OF assms] by simp
qed

lemma length_cleared_board: "length (cleared_board w h b) = length b"
proof -
  have "length (filter is_full (take h b)) + length (filter (\<lambda>row. \<not> is_full row) (take h b))
        = length (take h b)"
    using sum_length_filter_compl[of is_full "take h b"] by simp
  then show ?thesis by (simp add: cleared_board_def cleared_rows_def min_def split: if_splits)
qed

lemma spawnNewPiece_frame:
  assumes "spawnNewPiece e = Some e'"
  shows "board e' = board e \<and> lines e' = lines e \<and> combo e' = combo e \<and> score e' = score e
     \<and> level e' = level e \<and> width e' = width e \<and> height e' = height e
     \<and> lastClearWasTSpin e' = lastClearWasTSpin e \<and> currentPiece e' = nextPiece e
     \<and> holdPiece e' = holdPiece e"
  using assms
  by (auto simp: spawnNewPiece_def Let_def split: prod.splits bind_splits if_splits)

lemma spawnNewPiece_total:
  assumes "nextPiece e = Some np" "valid_rotation np" "height e \<le> length (board e)"
  shows "\<exists>e'. spawnNewPiece e = Some e'"
proof -
  from colliding_total[OF assms(3,2), of "width e"] obtain c
    where "colliding (width e) (height e) (board e) np = Some c" by blast
  with assms(1) show ?thesis
    by (simp add: spawnNewPiece_def Let_def isColliding_def split: prod.splits)
qed

lemma isPerfectClear_cong: "board a = board b \<Longrightarrow> isPerfectClear a = isPerfectClear b"
  by (simp add: isPerfectClear_def)

definition lock_points :: "int \<Rightarrow> bool \<Rightarrow> int \<Rightarrow> bool \<Rightarrow> int" where
  "lock_points k spin c perfect =
     (let base = score_table k spin + (if c > 1 then 50 * (c - 1) else 0)
      in if perfect then base * 10 else base)"

lemma calculateScore_result:
  "score (calculateScore k spin e) = score e + lock_points k spin (combo e) (isPerfectClear e) * level e
   \<and> board (calculateScore k spin e) = board e \<and> lines (calculateScore k spin e) = lines e
   \<and> combo (calculateScore k spin e) = combo e \<and> level (calculateScore k spin e) = level e
   \<and> width (calculateScore k spin e) = width e \<and> height (calculateScore k spin e) = height e
   \<and> nextPiece (calculateScore k spin e) = nextPiece e
   \<and> lastClearWasTSpin (calculateScore k spin e) = spin"
  by (simp add: calculateScore_def lock_points_def Let_def isPerfectClear_def)

lemma lockPiece_result:
  assumes "currentPiece e = Some p" "valid_rotation p"
    "height e \<le> length (board e)"
    "list_all (\<lambda>row. width e \<le> length row) (take (height e) (board e))"
    "nextPiece e = Some np" "valid_rotation np"
  shows "\<exists>blocks b1 e'.
       getBlocks p = Some blocks
     \<and> place_blocks (width e) (height e) (piece_cell p) blocks (board e) = Some b1
     \<and> lockPiece e = Some e'
     \<and> board e' = cleared_board (width e) (height e) b1
     \<and> lines e' = lines e + int (cleared_rows (height e) b1)
     \<and> combo e' = (if cleared_rows (height e) b1 = 0 then 0 else combo e + 1)
     \<and> lastClearWasTSpin e' = isTSpin p b1
     \<and> score e' = score e + lock_points (int (cleared_rows (height e) b1)) (isTSpin p b1)
                                 (combo e') (isPerfectClear e') * level e'
     \<and> level e' = (if cleared_rows (height e) b1 = 0 then level e
                    else max (level e) (lines e' div 10 + 1))
     \<and> width e' = width e \<and> height e' = height e"
proof -
  from assms(2) obtain blocks where bl: "getBlocks p = Some blocks"
    using getBlocks_Some_iff by blast
  from assms(3,4) have rows: "\<forall>i<height e. width e \<le> length (board e ! i)"
    by (simp add: list_all_length)
  from place_blocks_total[OF assms(3) rows] obtain b1
    where b1: "place_blocks (width e) (height e) (piece_cell p) blocks (board e) = Some b1"
    by blast
  let ?e1 = "e\<lparr>board := b1\<rparr>"
  from place_blocks_length[OF b1] have "length b1 = length (board e)"
    using map_eq_imp_length_eq by blast
  with assms(3) have h1: "height ?e1 \<le> length (board ?e1)" by simp
  from clearLines_result[OF h1] obtain e2 where
    cl: "clearLines ?e1 = Some (e2, int (cleared_rows (height e) b1))"
    and e2: "board e2 = cleared_board (width e) (height e) b1"
      "lines e2 = lines e + int (cleared_rows (height e) b1)"
      "combo e2 = (if cleared_rows (height e) b1 = 0 then 0 else combo e + 1)"
      "width e2 = width e" "height e2 = height e" "score e2 = score e"
      "nextPiece e2 = nextPiece e"
      "level e2 = (if cleared_rows (height e) b1 = 0 then level e
                    else max (level e) ((lines e + int (cleared_rows (height e) b1)) div 10 + 1))"
    by auto
  let ?k = "int (cleared_rows (height e) b1)"
  let ?e3 = "calculateScore ?k (isTSpin p b1) e2"
  note cs = calculateScore_result[of ?k "isTSpin p b1" e2]
  have "height ?e3 \<le> length (board ?e3)"
    using cs e2 assms(3) \<open>length b1 = length (board e)\<close> by (simp add: length_cleared_board)
  moreover have "nextPiece ?e3 = Some np" using cs e2 assms(5) by simp
  ultimately obtain e' where sp: "spawnNewPiece ?e3 = Some e'"
    using spawnNewPiece_total[of ?e3 np] assms(6) by blast
  note fr = spawnNewPiece_frame[OF sp]
  have lk: "lockPiece e = Some e'"
    using assms(1) bl b1 cl sp by (simp add: lockPiece_def Let_def)
  have pc: "isPerfectClear e' = isPerfectClear e2"
    using fr cs by (simp add: isPerfectClear_cong[of e' e2])
  have "score e' = score e + lock_points ?k (isTSpin p b1) (combo e') (isPerfectClear e') * level e'"
    using fr cs e2 pc by simp
  with bl b1 lk fr cs e2 show ?thesis by simp
qed

section \<open>Facts about rounding\<close>

text \<open>
  The same rounding on natural numbers, for any number \<open>p\<close> of significant bits. It never
  moves a number across a multiple of \<open>2 ^ s\<close> when the factor it came from is below \<open>2 ^ s\<close>
  and is itself representable with \<open>p\<close> bits: the product of a double below 1 and a positive
  integer \<open>k\<close> rounds to a double below \<open>k\<close>.
\<close>

definition bit_length :: "nat \<Rightarrow> nat" where
  "bit_length n = nat (bitlen (int n))"

definition round_bits :: "nat \<Rightarrow> nat \<Rightarrow> nat" where
  "round_bits p n =
     (let b = bit_length n
      in if b \<le> p then n
         else let sh = b - p;
                  q = n div 2 ^ sh;
                  r = n mod 2 ^ sh;
                  half = 2 ^ (sh - 1)
              in (if r > half \<or> (r = half \<and> odd q) then q + 1 else q) * 2 ^ sh)"

lemma bit_length_bounds:
  assumes "0 < n"
  shows "2 ^ (bit_length n - 1) \<le> n" "n < 2 ^ bit_length n" "0 < bit_length n"
proof -
  from assms have p: "0 < int n" by simp
  from bitlen_bounds[OF p] have a: "2 ^ nat (bitlen (int n) - 1) \<le> int n"
    and b: "int n < 2 ^ nat (bitlen (int n))" by auto
  have pos: "1 \<le> bitlen (int n)" using p by (auto simp: bitlen_alt_def)
  then show "0 < bit_length n" by (simp add: bit_length_def)
  have "nat (bitlen (int n) - 1) = bit_length n - 1"
    using pos by (simp add: bit_length_def nat_diff_distrib)
  with a have "int (2 ^ (bit_length n - 1)) \<le> int n" by simp
  then show "2 ^ (bit_length n - 1) \<le> n" by (simp only: of_nat_le_iff)
  from b have "int n < int (2 ^ bit_length n)" by (simp add: bit_length_def)
  then show "n < 2 ^ bit_length n" by (simp only: of_nat_less_iff)
qed

lemma bit_length_0: "bit_length 0 = 0"
  by (simp add: bit_length_def)

lemma round_bits_small: "bit_length n \<le> p \<Longrightarrow> round_bits p n = n"
  by (simp add: round_bits_def)

lemma round_bits_upper:
  assumes "p < bit_length n"
  shows "round_bits p n \<le> n + 2 ^ (bit_length n - Suc p)"
proof -
  define sh where "sh = bit_length n - p"
  define q where "q = n div 2 ^ sh"
  define r where "r = n mod 2 ^ sh"
  have sh: "0 < sh" using assms by (simp add: sh_def)
  have n: "n = q * 2 ^ sh + r" by (simp add: q_def r_def div_mult_mod_eq)
  have half: "(2::nat) ^ sh = 2 ^ (sh - 1) + 2 ^ (sh - 1)"
    using sh by (cases sh) simp_all
  have e: "bit_length n - Suc p = sh - 1" by (simp add: sh_def)
  have rd: "round_bits p n
            = (if r > 2 ^ (sh - 1) \<or> (r = 2 ^ (sh - 1) \<and> odd q) then q + 1 else q) * 2 ^ sh"
    using assms by (simp add: round_bits_def Let_def sh_def q_def r_def)
  show ?thesis
  proof (cases "r > 2 ^ (sh - 1) \<or> (r = 2 ^ (sh - 1) \<and> odd q)")
    case True
    then have "2 ^ (sh - 1) \<le> r" by auto
    moreover from True rd have "round_bits p n = q * 2 ^ sh + 2 ^ sh" by (simp add: algebra_simps)
    ultimately show ?thesis unfolding e using n half by linarith
  next
    case False
    with rd have "round_bits p n = q * 2 ^ sh" by simp
    with n show ?thesis by simp
  qed
qed

lemma round_bits_multiple:
  "p < bit_length m \<Longrightarrow> \<exists>c. round_bits p m = c * 2 ^ (bit_length m - p)"
  by (simp add: round_bits_def Let_def)

lemma representable_below_power:
  assumes "round_bits p m = m" "m < 2 ^ s"
  shows "m * 2 ^ p + 2 ^ s \<le> 2 ^ s * 2 ^ p"
proof (cases "m = 0")
  case True
  then show ?thesis by simp
next
  case False
  then have pos: "0 < m" by simp
  let ?b = "bit_length m"
  from bit_length_bounds[OF pos] assms(2) have "(2::nat) ^ (?b - 1) < 2 ^ s" by linarith
  then have bs: "?b - 1 < s" by simp
  show ?thesis
  proof (cases "?b < s")
    case True
    then obtain t where t: "s = Suc t" "?b \<le> t" by (cases s) auto
    from t(2) have "(2::nat) ^ ?b \<le> 2 ^ t" by (simp add: power_increasing)
    with bit_length_bounds(2)[OF pos] have "m < 2 ^ t" by linarith
    then have "m * 2 ^ p \<le> 2 ^ t * 2 ^ p" by simp
    moreover have "(2::nat) ^ s * 2 ^ p = 2 ^ t * 2 ^ p + 2 ^ t * 2 ^ p" by (simp add: t)
    moreover have "(2::nat) ^ s \<le> 2 ^ t * 2 ^ p"
    proof -
      have "(2::nat) ^ t * 2 ^ 0 \<le> 2 ^ t * 2 ^ p" by (rule mult_le_mono2) simp
      moreover have "(2::nat) ^ s \<le> 2 ^ t * 2 ^ p" if "0 < p"
      proof -
        from that obtain p' where "p = Suc p'" by (cases p) auto
        then show ?thesis by (simp add: t)
      qed
      moreover have "(2::nat) ^ s \<le> 2 ^ t * 2 ^ p" if "p = 0"
      proof -
        from that pos have "?b \<le> 0 \<or> round_bits p m \<noteq> m \<or> True" by simp
        have "bit_length m > 0" using bit_length_bounds(3)[OF pos] .
        with that have gt: "p < ?b" by simp
        define sh where "sh = ?b - p"
        from round_bits_multiple[OF gt] assms(1) obtain c where c: "m = c * 2 ^ sh"
          unfolding sh_def by auto
        have "sh = ?b" using that by (simp add: sh_def)
        with c have "m = c * 2 ^ ?b" by simp
        with pos have "2 ^ ?b \<le> m" by (cases c) auto
        with bit_length_bounds(2)[OF pos] show ?thesis by simp
      qed
      ultimately show ?thesis by blast
    qed
    ultimately show ?thesis by linarith
  next
    case False
    with bs bit_length_bounds(3)[OF pos] have b: "?b = s" by linarith
    show ?thesis
    proof (cases "?b \<le> p")
      case True
      from assms(2) have "m + 1 \<le> 2 ^ s" by simp
      then have "(m + 1) * 2 ^ p \<le> 2 ^ s * 2 ^ p" by (simp only: mult_le_mono1)
      then have "m * 2 ^ p + 2 ^ p \<le> 2 ^ s * 2 ^ p" by (simp only: add_mult_distrib mult_1)
      moreover have "(2::nat) ^ s \<le> 2 ^ p" using True b by (simp add: power_increasing)
      ultimately show ?thesis by linarith
    next
      case False
      define sh where "sh = ?b - p"
      from False have s: "s = p + sh" using b by (simp add: sh_def)
      from False have "p < ?b" by simp
      from round_bits_multiple[OF this] assms(1) obtain c where c: "m = c * 2 ^ sh"
        unfolding sh_def by auto
      from assms(2) have "c * 2 ^ sh < 2 ^ p * 2 ^ sh" by (simp add: c s power_add)
      then have "c < 2 ^ p" by simp
      then have "c + 1 \<le> 2 ^ p" by simp
      then have "(c + 1) * 2 ^ sh \<le> 2 ^ p * 2 ^ sh" by (simp only: mult_le_mono1)
      then have "m + 2 ^ sh \<le> 2 ^ s" by (simp add: c s power_add algebra_simps)
      then have "(m + 2 ^ sh) * 2 ^ p \<le> 2 ^ s * 2 ^ p" by (simp only: mult_le_mono1)
      moreover have "(2::nat) ^ sh * 2 ^ p = 2 ^ s" by (simp add: s power_add)
      ultimately show ?thesis by (simp add: algebra_simps)
    qed
  qed
qed

lemma round_bits_product_below:
  assumes "round_bits p m = m" "m < 2 ^ s" "0 < k"
  shows "round_bits p (m * k) < k * 2 ^ s"
proof -
  let ?N = "m * k" and ?T = "k * 2 ^ s"
  have NT: "?N < ?T" using assms(2,3) by (simp add: mult.commute)
  show ?thesis
  proof (cases "bit_length ?N \<le> p")
    case True
    with NT show ?thesis by (simp add: round_bits_small)
  next
    case False
    then have big: "p < bit_length ?N" by simp
    then have pos: "0 < ?N" by (cases "?N = 0") (simp_all add: bit_length_0)
    let ?b = "bit_length ?N"
    from representable_below_power[OF assms(1,2)]
    have "(m * 2 ^ p + 2 ^ s) * k \<le> (2 ^ s * 2 ^ p) * k" by (simp only: mult_le_mono1)
    then have B: "?N * 2 ^ p + ?T \<le> ?T * 2 ^ p" by (simp add: algebra_simps)
    have h: "?b - Suc p + p = ?b - 1" using big by simp
    have "(2::nat) ^ (?b - Suc p) * 2 ^ p = 2 ^ (?b - Suc p + p)" by (simp only: power_add)
    then have pw: "(2::nat) ^ (?b - Suc p) * 2 ^ p = 2 ^ (?b - 1)" by (simp only: h)
    have "?N + 2 ^ (?b - Suc p) < ?T"
    proof (rule ccontr)
      assume "\<not> ?N + 2 ^ (?b - Suc p) < ?T"
      then have "?T \<le> ?N + 2 ^ (?b - Suc p)" by simp
      then have "?T * 2 ^ p \<le> (?N + 2 ^ (?b - Suc p)) * 2 ^ p" by (simp only: mult_le_mono1)
      also have "\<dots> = ?N * 2 ^ p + 2 ^ (?b - 1)" by (simp only: add_mult_distrib pw)
      also have "\<dots> \<le> ?N * 2 ^ p + ?N" using bit_length_bounds(1)[OF pos] by simp
      also have "\<dots> < ?N * 2 ^ p + ?T" using NT by simp
      finally show False using B by simp
    qed
    with round_bits_upper[OF big] show ?thesis by linarith
  qed
qed

lemma round53_int: "round53 (int n) = int (round_bits 53 n)"
proof (cases "bit_length n \<le> 53")
  case True
  then show ?thesis
    by (simp add: round53_def round_bits_def bit_length_def)
next
  case False
  define sh where "sh = bit_length n - 53"
  define q where "q = n div 2 ^ sh"
  define r where "r = n mod 2 ^ sh"
  have h: "(2::int) ^ k = int (2 ^ k)" for k by simp
  have iq: "int n div 2 ^ sh = int q" unfolding h q_def by (simp only: zdiv_int)
  have ir: "int n mod 2 ^ sh = int r" unfolding h r_def by (simp only: zmod_int)
  have c1: "(2 ^ (sh - 1) < int r) = (2 ^ (sh - 1) < r)"
    unfolding h by (simp only: of_nat_less_iff)
  have c2: "(int r = 2 ^ (sh - 1)) = (r = 2 ^ (sh - 1))"
    unfolding h by (simp only: of_nat_eq_iff)
  have c3: "odd (int q) = odd q" by simp
  have nb: "\<not> nat (bitlen (int n)) \<le> 53" using False by (simp add: bit_length_def)
  have shb: "nat (bitlen (int n)) - 53 = sh" by (simp add: sh_def bit_length_def)
  have lhs: "round53 (int n)
      = (if 2 ^ (sh - 1) < int r \<or> (int r = 2 ^ (sh - 1) \<and> odd (int q)) then int q + 1 else int q)
        * 2 ^ sh"
    unfolding round53_def Let_def by (simp only: nb if_False shb iq ir)
  have rhs: "round_bits 53 n
      = (if 2 ^ (sh - 1) < r \<or> (r = 2 ^ (sh - 1) \<and> odd q) then q + 1 else q) * 2 ^ sh"
    using False by (simp add: round_bits_def Let_def sh_def q_def r_def)
  show ?thesis unfolding lhs rhs c1 c2 c3 by simp
qed

lemma hole_below_width:
  assumes "is_unit_double d" "0 < k"
  shows "0 \<le> dfloor (dmul d (double_of_int (int k)))"
    and "nat (dfloor (dmul d (double_of_int (int k)))) < k"
proof -
  from assms(1) have "0 \<le> fst d" by (simp add: is_unit_double_def)
  then obtain m where fm: "fst d = int m" using nonneg_int_cases by blast
  define s where "s = snd d"
  have d: "d = (int m, s)" by (simp add: fm[symmetric] s_def)
  from assms(1) have "int m < 2 ^ s" and "round53 (int m) = int m"
    by (simp_all add: is_unit_double_def d)
  then have "int m < int (2 ^ s)" and r: "round_bits 53 m = m" by (simp_all add: round53_int)
  then have m: "m < 2 ^ s" by (simp only: of_nat_less_iff)
  have f: "dfloor (dmul d (double_of_int (int k))) = int (round_bits 53 (m * k) div 2 ^ s)"
  proof (cases "m = 0")
    case True
    then show ?thesis
      using round53_int[of 0]
      by (simp add: d dfloor_def dmul_def fl_def double_of_int_def round_bits_small bit_length_0)
  next
    case False
    with assms(2) have "sgn (int m * int k) = 1" by (simp add: sgn_mult)
    moreover have "\<bar>int m * int k\<bar> = int (m * k)" by (simp add: abs_mult)
    moreover have "int (round_bits 53 (m * k)) div 2 ^ s = int (round_bits 53 (m * k) div 2 ^ s)"
      by (simp add: zdiv_int)
    ultimately show ?thesis
      by (simp add: d dfloor_def dmul_def fl_def double_of_int_def round53_int del: of_nat_mult)
  qed
  show "0 \<le> dfloor (dmul d (double_of_int (int k)))" unfolding f by simp
  from round_bits_product_below[OF r m assms(2)]
  have "round_bits 53 (m * k) div 2 ^ s < k" by (simp add: less_mult_imp_div_less)
  then show "nat (dfloor (dmul d (double_of_int (int k)))) < k" unfolding f by simp
qed

section \<open>Facts about garbage rows\<close>

lemma shift_funpow: "(shift ^^ k) xs = drop k xs"
proof (induction k arbitrary: xs)
  case 0
  then show ?case by simp
next
  case (Suc k)
  have "shift ys = tl ys" for ys :: "'a list"
    by (cases ys) (simp_all add: shift_def)
  then have "shift (drop k xs) = drop (Suc k) xs"
    by (simp add: tl_drop drop_Suc)
  with Suc show ?case by simp
qed

lemma unit_draws_next: "unit_draws r \<Longrightarrow> unit_draws (next_rng r)"
  by (simp add: unit_draws_def next_rng_def)

lemma random_below_less:
  assumes "unit_draws r" "0 < k"
  shows "fst (random_below k r) < k"
proof -
  from assms(1) have "is_unit_double (r 0)" by (simp add: unit_draws_def)
  from hole_below_width(2)[OF this assms(2)] show ?thesis by (simp add: random_below_def)
qed

text \<open>The hole column computed from one random value.\<close>

definition hole_of :: "nat \<Rightarrow> double \<Rightarrow> nat" where
  "hole_of w x = nat (dfloor (dmul x (double_of_int (int w))))"

lemma push_garbage_result:
  assumes "unit_draws r" "0 < w"
  shows "push_garbage k w b r
     = Some (b @ map (\<lambda>i. (replicate w (Some garbage_cell))[hole_of w (r i) := None]) [0..<k],
             (\<lambda>i. r (i + k)))"
  using assms(1)
proof (induction k arbitrary: b r)
  case 0
  then show ?case by simp
next
  case (Suc k)
  from random_below_less[OF Suc.prems assms(2)] have hl: "hole_of w (r 0) < w"
    by (simp add: random_below_def hole_of_def)
  have ups: "[0..<Suc k] = 0 # map Suc [0..<k]"
    by (simp add: upt_conv_Cons map_Suc_upt del: upt_Suc)
  have ih: "push_garbage k w b' (\<lambda>i. r (Suc i))
     = Some (b' @ map (\<lambda>i. (replicate w (Some garbage_cell))[hole_of w (r (Suc i)) := None]) [0..<k],
             (\<lambda>i. r (Suc (i + k))))" for b'
    using Suc.IH[OF unit_draws_next[OF Suc.prems]] by (simp add: next_rng_def)
  show ?case
    unfolding ups using hl
    by (simp add: random_below_def garbageLine_def Let_def ih hole_of_def next_rng_def comp_def)
qed

lemma garbage_row_shape:
  assumes "h < w"
  shows "length ((replicate w (Some c))[h := None]) = w
     \<and> length (filter (\<lambda>x. x = None) ((replicate w (Some c))[h := None])) = 1
     \<and> length (filter (\<lambda>x. x \<noteq> None) ((replicate w (Some c))[h := None])) = w - 1"
proof -
  have "(replicate w (Some c))[h := None] = replicate h (Some c) @ None # replicate (w - Suc h) (Some c)"
    using assms by (simp add: list_eq_iff_nth_eq nth_append nth_list_update nth_Cons split: nat.splits)
  then show ?thesis using assms by simp
qed

section \<open>AI player (class AIPlayer): move search\<close>

text \<open>
  The parameters of a difficulty level. The weights are JavaScript numbers written as
  decimal literals; the value of a literal is the double nearest to it. \<open>decimal n k m s\<close>
  is the double \<open>m / 2 ^ s\<close>, given for the literal \<open>n / 10 ^ k\<close>, and \<open>nearest_double\<close>
  says that it lies within half a unit of the last of its 53 bits from \<open>n / 10 ^ k\<close>.
\<close>

definition decimal :: "int \<Rightarrow> nat \<Rightarrow> int \<Rightarrow> nat \<Rightarrow> double" where
  "decimal n k m s = (m, s)"

definition nearest_double :: "int \<Rightarrow> nat \<Rightarrow> double \<Rightarrow> bool" where
  "nearest_double n k d =
     (nat (bitlen \<bar>fst d\<bar>) \<le> 53
      \<and> 2 * \<bar>fst d * 10 ^ k - n * 2 ^ snd d\<bar> * 2 ^ (53 - nat (bitlen \<bar>fst d\<bar>)) \<le> 10 ^ k)"

definition dneg :: "double \<Rightarrow> double" where
  "dneg d = (- fst d, snd d)"

record aiParams =
  lookAhead :: nat
  heightWeight :: double
  linesWeight :: double
  holesWeight :: double
  bumpinessWeight :: double
  aggregateHeightWeight :: double
  errorRate :: double

datatype difficulty = Easy | Medium | Hard | Expert

definition getAIParams :: "difficulty \<Rightarrow> aiParams" where
  "getAIParams d = (case d of
      Easy \<Rightarrow> \<lparr>lookAhead = 1,
               heightWeight = dneg (decimal 5 1 1 1),
               linesWeight = decimal 8 1 3602879701896397 52,
               holesWeight = dneg (decimal 3 1 5404319552844595 54),
               bumpinessWeight = dneg (decimal 1 1 3602879701896397 55),
               aggregateHeightWeight = dneg (decimal 1 1 3602879701896397 55),
               errorRate = decimal 15 2 5404319552844595 55\<rparr>
    | Medium \<Rightarrow> \<lparr>lookAhead = 2,
               heightWeight = dneg (decimal 7 1 3152519739159347 52),
               linesWeight = decimal 10 1 1 0,
               holesWeight = dneg (decimal 5 1 1 1),
               bumpinessWeight = dneg (decimal 2 1 3602879701896397 54),
               aggregateHeightWeight = dneg (decimal 2 1 3602879701896397 54),
               errorRate = decimal 8 2 5764607523034235 56\<rparr>
    | Hard \<Rightarrow> \<lparr>lookAhead = 3,
               heightWeight = dneg (decimal 9 1 8106479329266893 53),
               linesWeight = decimal 12 1 5404319552844595 52,
               holesWeight = dneg (decimal 7 1 3152519739159347 52),
               bumpinessWeight = dneg (decimal 3 1 5404319552844595 54),
               aggregateHeightWeight = dneg (decimal 3 1 5404319552844595 54),
               errorRate = decimal 3 2 1080863910568919 55\<rparr>
    | Expert \<Rightarrow> \<lparr>lookAhead = 4,
               heightWeight = dneg (decimal 10 1 1 0),
               linesWeight = decimal 15 1 3 1,
               holesWeight = dneg (decimal 10 1 1 0),
               bumpinessWeight = dneg (decimal 4 1 3602879701896397 53),
               aggregateHeightWeight = dneg (decimal 4 1 3602879701896397 53),
               errorRate = decimal 1 2 5764607523034235 59\<rparr>)"

text \<open>The literals of \<open>getAIParams\<close> are read correctly.\<close>

lemma literals_nearest:
  "nearest_double 5 1 (decimal 5 1 1 1)"
  "nearest_double 8 1 (decimal 8 1 3602879701896397 52)"
  "nearest_double 3 1 (decimal 3 1 5404319552844595 54)"
  "nearest_double 1 1 (decimal 1 1 3602879701896397 55)"
  "nearest_double 15 2 (decimal 15 2 5404319552844595 55)"
  "nearest_double 7 1 (decimal 7 1 3152519739159347 52)"
  "nearest_double 10 1 (decimal 10 1 1 0)"
  "nearest_double 2 1 (decimal 2 1 3602879701896397 54)"
  "nearest_double 8 2 (decimal 8 2 5764607523034235 56)"
  "nearest_double 9 1 (decimal 9 1 8106479329266893 53)"
  "nearest_double 12 1 (decimal 12 1 5404319552844595 52)"
  "nearest_double 3 2 (decimal 3 2 1080863910568919 55)"
  "nearest_double 15 1 (decimal 15 1 3 1)"
  "nearest_double 4 1 (decimal 4 1 3602879701896397 53)"
  "nearest_double 1 2 (decimal 1 2 5764607523034235 59)"
  by code_simp+

text \<open>
  The board metrics read cells only to compare them with \<^verbatim>\<open>null\<close>, so they are stated for
  rows of any content. A read of \<^verbatim>\<open>board[y][x]\<close> throws when row \<open>y\<close> is missing and gives
  \<^verbatim>\<open>undefined\<close>, which is not \<^verbatim>\<open>null\<close>, when the row is too short.
\<close>

definition countClearedLines :: "'a option list list \<Rightarrow> nat" where
  "countClearedLines b = length (filter is_full b)"

definition removeClearedLines :: "nat \<Rightarrow> nat \<Rightarrow> 'a option list list \<Rightarrow> 'a option list list" where
  "removeClearedLines w h b =
     (let newBoard = filter (\<lambda>row. \<not> is_full row) b
      in replicate (h - length newBoard) (replicate w None) @ newBoard)"

fun getMaxHeight :: "'a option list list \<Rightarrow> nat" where
  "getMaxHeight [] = 0"
| "getMaxHeight (row # rest) =
     (if list_ex (\<lambda>c. c \<noteq> None) row then length (row # rest) else getMaxHeight rest)"

fun col_holes :: "'a option list list \<Rightarrow> nat \<Rightarrow> bool \<Rightarrow> nat list \<Rightarrow> nat option" where
  "col_holes b x foundBlock [] = Some 0"
| "col_holes b x foundBlock (y # ys) =
     (if y \<ge> length b then None
      else if x \<ge> length (b ! y) \<or> b ! y ! x \<noteq> None then col_holes b x True ys
      else map_option (\<lambda>k. (if foundBlock then 1 else 0) + k) (col_holes b x foundBlock ys))"

definition countHoles :: "nat \<Rightarrow> nat \<Rightarrow> 'a option list list \<Rightarrow> nat option" where
  "countHoles w h b =
     map_option sum_list (those (map (\<lambda>x. col_holes b x False [0..<h]) [0..<w]))"

fun col_height :: "'a option list list \<Rightarrow> nat \<Rightarrow> nat \<Rightarrow> nat list \<Rightarrow> nat option" where
  "col_height b h x [] = Some 0"
| "col_height b h x (y # ys) =
     (if y \<ge> length b then None
      else if x \<ge> length (b ! y) \<or> b ! y ! x \<noteq> None then Some (h - y)
      else col_height b h x ys)"

fun adjacent_differences :: "nat list \<Rightarrow> nat" where
  "adjacent_differences (a # c # rest) =
     nat \<bar>int a - int c\<bar> + adjacent_differences (c # rest)"
| "adjacent_differences _ = 0"

definition getBumpiness :: "nat \<Rightarrow> nat \<Rightarrow> 'a option list list \<Rightarrow> nat option" where
  "getBumpiness w h b =
     map_option adjacent_differences (those (map (\<lambda>x. col_height b h x [0..<h]) [0..<w]))"

definition getAggregateHeight :: "nat \<Rightarrow> nat \<Rightarrow> 'a option list list \<Rightarrow> nat option" where
  "getAggregateHeight w h b =
     map_option sum_list (those (map (\<lambda>x. col_height b h x [0..<h]) [0..<w]))"

definition board_isPerfectClear :: "'a option list list \<Rightarrow> bool" where
  "board_isPerfectClear b = list_all (\<lambda>row. list_all (\<lambda>c. c = None) row) b"

text \<open>
  \<^verbatim>\<open>evaluatePosition(piece)\<close>, as a function of the engine it reads. The T-spin test is made
  on the board of the engine, not on the temporary board. The score is a double: each
  \<^verbatim>\<open>score += w * m\<close> is a rounded product followed by a rounded sum, and
  \<^verbatim>\<open>w * c * c\<close> is \<^verbatim>\<open>(w * c) * c\<close>. The metrics are integers far below \<open>2 ^ 53\<close>.
\<close>

definition position_score :: "aiParams \<Rightarrow> nat \<Rightarrow> nat \<Rightarrow> nat \<Rightarrow> nat \<Rightarrow> nat \<Rightarrow> bool \<Rightarrow> bool \<Rightarrow> double" where
  "position_score params clearedLines maxHeight holes bumpiness aggregateHeight tspin perfect =
     (let s0 = dadd (double_of_int 0)
                 (dmul (dmul (linesWeight params) (double_of_int (int clearedLines)))
                       (double_of_int (int clearedLines)));
          s1 = dadd s0 (dmul (heightWeight params) (double_of_int (int maxHeight)));
          s2 = dadd s1 (dmul (holesWeight params) (double_of_int (int holes)));
          s3 = dadd s2 (dmul (bumpinessWeight params) (double_of_int (int bumpiness)));
          s4 = dadd s3 (dmul (aggregateHeightWeight params) (double_of_int (int aggregateHeight)));
          s5 = (if tspin then dadd s4 (double_of_int 100) else s4);
          s6 = (if perfect then dadd s5 (double_of_int 1000) else s5)
      in s6)"

definition evaluatePosition :: "aiParams \<Rightarrow> engine \<Rightarrow> piece \<Rightarrow> double option" where
  "evaluatePosition params e p = do {
     let tempBoard0 = map (\<lambda>row. row) (board e);
     blocks \<leftarrow> getBlocks p;
     tempBoard \<leftarrow> place_blocks (width e) (height e) (piece_cell p) blocks tempBoard0;
     let clearedLines = countClearedLines tempBoard;
     let boardAfterClear = removeClearedLines (width e) (height e) tempBoard;
     let maxHeight = getMaxHeight boardAfterClear;
     holes \<leftarrow> countHoles (width e) (height e) boardAfterClear;
     bumpiness \<leftarrow> getBumpiness (width e) (height e) boardAfterClear;
     aggregateHeight \<leftarrow> getAggregateHeight (width e) (height e) boardAfterClear;
     Some (position_score params clearedLines maxHeight holes bumpiness aggregateHeight
             (ptype p = T_piece \<and> isTSpin p (board e))
             (board_isPerfectClear boardAfterClear))
   }"

lemma not_colliding_above_floor:
  assumes "isColliding e (Some p) = Some False"
  shows "py p < int (height e)"
proof -
  from assms obtain bs where bs: "getBlocks p = Some bs"
    and cb: "colliding_blocks (width e) (height e) (board e) bs = Some False"
    by (auto simp: isColliding_def colliding_def split: bind_splits)
  from getBlocks_nonempty[OF bs] obtain bx "by" where m: "(bx, by) \<in> set bs"
    by (cases bs) auto
  from getBlocks_rows[OF bs m] colliding_blocks_False_bounds[OF cb m]
  show ?thesis by arith
qed

text \<open>
  \<^verbatim>\<open>while (!this.gameEngine.isColliding(testPiece)) testPiece.y++\<close>: a piece that does not
  collide lies above the floor, so the loop ends.
\<close>

function sink :: "engine \<Rightarrow> piece \<Rightarrow> piece option" where
  "sink e testPiece =
     (case isColliding e (Some testPiece) of
        None \<Rightarrow> None
      | Some c \<Rightarrow> if \<not> c then sink e (testPiece\<lparr>py := py testPiece + 1\<rparr>) else Some testPiece)"
  by pat_completeness auto
termination
proof (relation "measure (\<lambda>(e, p). nat (int (height e) - py p))")
  show "wf (measure (\<lambda>(e, p). nat (int (height e) - py p)))" by simp
next
  fix e :: engine and testPiece :: piece and c :: bool
  assume "isColliding e (Some testPiece) = Some c" "\<not> c"
  then have "isColliding e (Some testPiece) = Some False" by simp
  from not_colliding_above_floor[OF this]
  show "((e, testPiece\<lparr>py := py testPiece + 1\<rparr>), (e, testPiece))
        \<in> measure (\<lambda>(e, p). nat (int (height e) - py p))"
    by simp
qed

text \<open>The move object \<^verbatim>\<open>{x, y, rotation, score}\<close>; no move yet is \<^verbatim>\<open>bestScore = -Infinity\<close>.\<close>

record best_move =
  move_x :: int
  move_y :: int
  move_rotation :: int
  move_score :: double

text \<open>The body of the two nested loops of \<^verbatim>\<open>findBestMove\<close>, for one rotation and one column.\<close>

definition try_position :: "aiParams \<Rightarrow> engine \<Rightarrow> piece \<Rightarrow> int \<Rightarrow> int \<Rightarrow> best_move option
                             \<Rightarrow> best_move option option" where
  "try_position params e cur rot x0 best = do {
     let testPiece = (clone cur)\<lparr>rotation := rot, px := x0, py := 0\<rparr>;
     sunk \<leftarrow> sink e testPiece;
     let testPiece' = sunk\<lparr>py := py sunk - 1\<rparr>;
     c \<leftarrow> isColliding e (Some testPiece');
     if c then Some best
     else do {
       sc \<leftarrow> evaluatePosition params e testPiece';
       Some (if (case best of None \<Rightarrow> True | Some bm \<Rightarrow> dless (move_score bm) sc)
             then Some \<lparr>move_x = px testPiece', move_y = py testPiece', move_rotation = rot,
                         move_score = sc\<rparr>
             else best)
     }
   }"

fun search_xs :: "aiParams \<Rightarrow> engine \<Rightarrow> piece \<Rightarrow> int \<Rightarrow> int list \<Rightarrow> best_move option
                  \<Rightarrow> best_move option option" where
  "search_xs params e cur rot [] best = Some best"
| "search_xs params e cur rot (x0 # xs) best = do {
     best' \<leftarrow> try_position params e cur rot x0 best;
     search_xs params e cur rot xs best'
   }"

fun search_rotations :: "aiParams \<Rightarrow> engine \<Rightarrow> piece \<Rightarrow> int list \<Rightarrow> best_move option
                         \<Rightarrow> best_move option option" where
  "search_rotations params e cur [] best = Some best"
| "search_rotations params e cur (rot # rots) best = do {
     best' \<leftarrow> search_xs params e cur rot [-2 ..  int (width e) + 1] best;
     search_rotations params e cur rots best'
   }"

definition findBestMove :: "aiParams \<Rightarrow> engine \<Rightarrow> best_move option option" where
  "findBestMove params e =
     (case currentPiece e of
        None \<Rightarrow> Some None
      | Some cur \<Rightarrow> search_rotations params e cur [0 .. int (length (shape cur)) - 1] None)"

text \<open>
  \<^verbatim>\<open>executeBestMove(move)\<close>. Its first loop,
  \<^verbatim>\<open>while (currentPiece.rotation !== move.rotation) this.gameEngine.rotatePiece(1)\<close>, has no
  bound, so it is a partial function: the outer \<open>None\<close> is a loop that never ends, the inner
  \<open>None\<close> a call that throws.
\<close>

partial_function (option) rotate_until :: "int \<Rightarrow> engine \<Rightarrow> engine option option" where
  "rotate_until target e =
     (case currentPiece e of
        None \<Rightarrow> Some None
      | Some p \<Rightarrow>
          if rotation p \<noteq> target
          then (case rotatePiece 1 e of
                  None \<Rightarrow> Some None
                | Some (e', ok) \<Rightarrow> rotate_until target e')
          else Some (Some e))"

definition executeBestMove :: "best_move \<Rightarrow> engine \<Rightarrow> engine option option" where
  "executeBestMove mv e =
     (case currentPiece e of
        None \<Rightarrow> Some (Some e)
      | Some _ \<Rightarrow>
          Option.bind (rotate_until (move_rotation mv) e) (\<lambda>r.
            Some (do {
              e1 \<leftarrow> r;
              p \<leftarrow> currentPiece e1;
              let dx = move_x mv - px p;
              e2 \<leftarrow> (if dx \<noteq> 0 then map_option fst (movePiece dx 0 e1) else Some e1);
              map_option fst (hardDrop e2)
            })))"

section \<open>Concrete states used as examples\<close>

definition constant_draws :: "double \<Rightarrow> rng" where
  "constant_draws c = (\<lambda>_. c)"

text \<open>
  The doubles that JavaScript writes \<^verbatim>\<open>0.7\<close> and \<^verbatim>\<open>0.99\<close>:
  \<open>3152519739159347 / 2 ^ 52\<close> and \<open>4458563631096791 / 2 ^ 52\<close>.
\<close>

definition double_0_7 :: double where
  "double_0_7 = (3152519739159347, 52)"

definition double_0_99 :: double where
  "double_0_99 = (4458563631096791, 52)"

text \<open>A row written as text: a dot is an empty cell, any other character a garbage cell.\<close>

definition row_of :: "string \<Rightarrow> cell option list" where
  "row_of s = map (\<lambda>ch. if ch = CHR ''.'' then None else Some garbage_cell) s"

text \<open>The same, with \<open>P\<close> standing for a cell written by a piece.\<close>

definition row_with :: "cell \<Rightarrow> string \<Rightarrow> cell option list" where
  "row_with c s = map (\<lambda>ch. if ch = CHR ''.'' then None
                           else if ch = CHR ''P'' then Some c else Some garbage_cell) s"

definition sample_engine :: "nat \<Rightarrow> nat \<Rightarrow> grid \<Rightarrow> piece \<Rightarrow> engine" where
  "sample_engine w h b p =
     \<lparr>width = w, height = h, board = b,
      currentPiece = Some p, nextPiece = Some (TetrisPiece O_piece 3 0), holdPiece = None,
      canHold = True, pieceGenerator = \<lparr>bag = [I_piece, T_piece, S_piece]\<rparr>,
      score = 0, level = 1, lines = 0, combo = 0,
      lastClearWasTSpin = False, gameOver = False, dropTimer = 0, dropInterval = 1000,
      lockDelay = 500, lockTimer = 0, isLocking = False,
      stats = \<lparr>totalPieces = 1, totalLines = 0, singles = 0, doubles = 0, triples = 0,
               tetrises = 0, tSpins = 0, perfectClears = 0\<rparr>,
      random = constant_draws (double_of_int 0)\<rparr>"

definition tetris_board :: grid where
  "tetris_board = createEmptyBoard 10 15 @ [row_of ''X.........'', row_of ''XXXX.XXXXX'',
      row_of ''XXXX.XXXXX'', row_of ''XXXX.XXXXX'', row_of ''XXXX.XXXXX'']"

definition tetris_piece :: piece where
  "tetris_piece = \<lparr>ptype = I_piece, px = 2, py = 16, rotation = 1\<rparr>"

definition single_board :: grid where
  "single_board = createEmptyBoard 10 18 @ [row_of ''X.........'', row_of ''XXXX....XX'']"

definition single_piece :: piece where
  "single_piece = \<lparr>ptype = I_piece, px = 4, py = 18, rotation = 0\<rparr>"

lemma tetris_blocks: "getBlocks tetris_piece = Some [(4,16),(4,17),(4,18),(4,19)]"
  by (simp add: getBlocks_def getCurrentShape_def tetris_piece_def shape_def PIECE_SHAPES_def upt_rec)

lemma tetris_place:
  "place_blocks 10 20 c [(4,16),(4,17),(4,18),(4,19)] tetris_board
   = Some (createEmptyBoard 10 15 @ [row_of ''X.........''] @ replicate 4 (row_with c ''XXXXPXXXXX''))"
  by (simp add: tetris_board_def createEmptyBoard_def row_of_def row_with_def nth_append eval_nat_numeral list_update_append)

lemma single_blocks: "getBlocks single_piece = Some [(4,19),(5,19),(6,19),(7,19)]"
  by (simp add: getBlocks_def getCurrentShape_def single_piece_def shape_def PIECE_SHAPES_def upt_rec)

lemma single_place:
  "place_blocks 10 20 c [(4,19),(5,19),(6,19),(7,19)] single_board
   = Some (createEmptyBoard 10 18 @ [row_of ''X.........'', row_with c ''XXXXPPPPXX''])"
  by (simp add: single_board_def createEmptyBoard_def row_of_def row_with_def nth_append eval_nat_numeral list_update_append)

definition kick_board :: grid where
  "kick_board = createEmptyBoard 10 3 @ [row_of ''....X.....''] @ createEmptyBoard 10 16"

definition low_piece :: piece where
  "low_piece = \<lparr>ptype = T_piece, px = 3, py = 17, rotation = 0\<rparr>"

text \<open>
  An engine whose \<^verbatim>\<open>Math.random()\<close> returns \<^verbatim>\<open>0.7\<close>, with a T piece two rows above
  the floor.
\<close>

definition attacked_engine :: engine where
  "attacked_engine = (sample_engine 10 20 (createEmptyBoard 10 20) low_piece)
                        \<lparr>random := constant_draws double_0_7\<rparr>"

definition over_board :: grid where
  "over_board = [row_of ''..........'', row_of ''......X...''] @ createEmptyBoard 10 18"

text \<open>A running game whose next piece, an I piece, will not fit at the spawn position.\<close>

definition before_over :: engine where
  "before_over = (sample_engine 10 20 over_board (TetrisPiece O_piece 3 0))
                   \<lparr>nextPiece := Some (TetrisPiece I_piece 3 0)\<rparr>"

text \<open>
  The state of a new engine whose first piece is an I piece (\<^verbatim>\<open>Math.random()\<close> returning 0)
  after \<^verbatim>\<open>receiveAttack(18)\<close>: eighteen garbage rows with the hole in column 0 under two
  empty rows, and the I piece at its spawn position.
\<close>

definition stuck_board :: grid where
  "stuck_board = createEmptyBoard 10 2 @ replicate 18 (row_of ''.XXXXXXXXX'')"

definition stuck_engine :: engine where
  "stuck_engine = (sample_engine 10 20 stuck_board (TetrisPiece I_piece 3 0))
                    \<lparr>nextPiece := Some (TetrisPiece L_piece 3 0),
                     pieceGenerator := \<lparr>bag = [O_piece, T_piece, S_piece, Z_piece, J_piece]\<rparr>\<rparr>"

text \<open>Random values: six times 0, then 0.99 for ever.\<close>

definition two_phase_draws :: rng where
  "two_phase_draws = (\<lambda>i. if i < 6 then double_of_int 0 else double_0_99)"

definition one_row_board :: grid where
  "one_row_board = createEmptyBoard 10 19 @ [row_of ''XXXX......'']"

text \<open>Products with the random values of the examples, rounded and floored.\<close>

lemma floor_zero_times: "dfloor (dmul (double_of_int 0) (double_of_int k)) = 0"
  by (simp add: dfloor_def dmul_def fl_def double_of_int_def round53_def)

lemma random_below_zero:
  "random_below k (constant_draws (double_of_int 0)) = (0, constant_draws (double_of_int 0))"
  by (simp add: random_below_def floor_zero_times constant_draws_def next_rng_def)

lemma unit_double_zero: "is_unit_double (double_of_int 0)"
  by (simp add: is_unit_double_def double_of_int_def round53_def)

lemma unit_double_0_7: "is_unit_double double_0_7"
  unfolding double_0_7_def by code_simp

lemma unit_double_0_99: "is_unit_double double_0_99"
  unfolding double_0_99_def by code_simp

lemma floor_0_7_times_10: "dfloor (dmul double_0_7 (double_of_int 10)) = 7"
  unfolding double_0_7_def by code_simp

lemma floor_0_99_times:
  "dfloor (dmul double_0_99 (double_of_int 7)) = 6"
  "dfloor (dmul double_0_99 (double_of_int 6)) = 5"
  "dfloor (dmul double_0_99 (double_of_int 5)) = 4"
  "dfloor (dmul double_0_99 (double_of_int 4)) = 3"
  "dfloor (dmul double_0_99 (double_of_int 3)) = 2"
  "dfloor (dmul double_0_99 (double_of_int 2)) = 1"
  unfolding double_0_99_def by code_simp+

section \<open>Attack lines\<close>

text \<open>
  Claim C5, as amended. \<^verbatim>\<open>getAttackLines(lines, isTSpin)\<close> is the table value (0/1/2/4 for
  1/2/3/4 lines of a normal clear, 0/2/4/6 for 0/1/2/3 lines of a T-spin), plus
  \<open>min (combo - 1) 4\<close> when the combo counter exceeds 1, plus 10 when every cell of the board
  is empty. The two values \<open>getAttackLines(4,false) = 4\<close> and \<open>getAttackLines(1,true) = 2\<close>
  hold when neither bonus applies: the combo counter is at most 1 and the board is not
  entirely empty.
\<close>

theorem getAttackLines_formula:
  "getAttackLines n spin e
     = attack_table n spin + (if combo e > 1 then min (combo e - 1) 4 else 0)
       + (if isPerfectClear e then 10 else 0)
   \<and> map (\<lambda>k. attack_table k False) [1, 2, 3, 4] = [0, 1, 2, 4]
   \<and> map (\<lambda>k. attack_table k True) [0, 1, 2, 3] = [0, 2, 4, 6]
   \<and> (combo e \<le> 1 \<and> \<not> isPerfectClear e
        \<longrightarrow> getAttackLines 4 False e = 4 \<and> getAttackLines 1 True e = 2)"
  by (simp add: getAttackLines_def attack_table_def Let_def)

theorem getAttackLines_formula_witness:
  "combo (sample_engine 10 20 one_row_board (TetrisPiece T_piece 3 0)) \<le> 1
   \<and> \<not> isPerfectClear (sample_engine 10 20 one_row_board (TetrisPiece T_piece 3 0))
   \<and> getAttackLines 4 False (sample_engine 10 20 one_row_board (TetrisPiece T_piece 3 0)) = 4
   \<and> getAttackLines 1 True (sample_engine 10 20 one_row_board (TetrisPiece T_piece 3 0)) = 2"
proof -
  have a: "combo (sample_engine 10 20 one_row_board (TetrisPiece T_piece 3 0)) \<le> 1"
    by (simp add: sample_engine_def)
  have b: "\<not> isPerfectClear (sample_engine 10 20 one_row_board (TetrisPiece T_piece 3 0))"
    by (simp add: sample_engine_def isPerfectClear_def one_row_board_def row_of_def)
  from a b getAttackLines_formula[of 4 False "sample_engine 10 20 one_row_board (TetrisPiece T_piece 3 0)"]
  show ?thesis by blast
qed

text \<open>
  The claim as stated fails on a newly constructed engine: its board is empty, so the
  perfect-clear bonus applies and \<open>getAttackLines(4,false)\<close> is 14.
\<close>

theorem getAttackLines_fresh_engine:
  "map_option (getAttackLines 4 False) (TetrisGameEngine 10 20 (constant_draws (double_of_int 0)))
   = Some 14"
  by (simp add: TetrisGameEngine_def refillBag_def pieces_def random_below_zero swap_def
      eval_nat_numeral initializeGame_def getNext_def
      spawnNewPiece_def Let_def createEmptyBoard_def TetrisPiece_def isColliding_def
      colliding_def getBlocks_def getCurrentShape_def shape_def PIECE_SHAPES_def upt_rec
      getAttackLines_def attack_table_def isPerfectClear_def)

section \<open>Locking a piece: line clearing\<close>

text \<open>
  Claim C3. Let the engine hold a current piece with a rotation index of its shape table, a
  board with at least \<open>height\<close> rows of at least \<open>width\<close> cells, and a next piece. Then
  \<^verbatim>\<open>lockPiece()\<close> returns, and with \<open>k\<close> the number of full rows among the first \<open>height\<close>
  rows after the piece has been written: the new board is \<open>k\<close> empty rows followed by the
  rows that were not full, in order (so the \<open>k\<close> full rows are removed, \<open>k\<close> empty rows are
  inserted at the top and the number of rows is unchanged); the line counter grows by
  exactly \<open>k\<close>; the combo counter is incremented when \<open>k \<ge> 1\<close> and is 0 when \<open>k = 0\<close>.
\<close>

theorem lockPiece_line_clear:
  assumes "currentPiece e = Some p" "valid_rotation p"
    "height e \<le> length (board e)"
    "list_all (\<lambda>row. width e \<le> length row) (take (height e) (board e))"
    "nextPiece e = Some np" "valid_rotation np"
  shows "\<exists>blocks b1 e'.
       getBlocks p = Some blocks
     \<and> place_blocks (width e) (height e) (piece_cell p) blocks (board e) = Some b1
     \<and> lockPiece e = Some e'
     \<and> (let k = length (filter is_full (take (height e) b1))
        in board e' = replicate k (replicate (width e) None)
                      @ filter (\<lambda>row. \<not> is_full row) (take (height e) b1) @ drop (height e) b1
         \<and> length (board e') = length (board e)
         \<and> lines e' = lines e + int k
         \<and> combo e' = (if k \<ge> 1 then combo e + 1 else 0))"
proof -
  from lockPiece_result[OF assms] obtain blocks b1 e' where
    r: "getBlocks p = Some blocks"
       "place_blocks (width e) (height e) (piece_cell p) blocks (board e) = Some b1"
       "lockPiece e = Some e'"
       "board e' = cleared_board (width e) (height e) b1"
       "lines e' = lines e + int (cleared_rows (height e) b1)"
       "combo e' = (if cleared_rows (height e) b1 = 0 then 0 else combo e + 1)"
    by blast
  from place_blocks_length[OF r(2)] have "length b1 = length (board e)"
    using map_eq_imp_length_eq by blast
  with r(4) have "length (board e') = length (board e)"
    by (simp add: length_cleared_board)
  moreover have "(1 \<le> cleared_rows (height e) b1) = (cleared_rows (height e) b1 \<noteq> 0)"
    by auto
  ultimately show ?thesis using r
    unfolding Let_def cleared_board_def cleared_rows_def by auto
qed

theorem lockPiece_line_clear_witness:
  "currentPiece (sample_engine 10 20 single_board single_piece) = Some single_piece
   \<and> valid_rotation single_piece
   \<and> height (sample_engine 10 20 single_board single_piece)
       \<le> length (board (sample_engine 10 20 single_board single_piece))
   \<and> list_all (\<lambda>row. width (sample_engine 10 20 single_board single_piece) \<le> length row)
        (take (height (sample_engine 10 20 single_board single_piece))
              (board (sample_engine 10 20 single_board single_piece)))
   \<and> nextPiece (sample_engine 10 20 single_board single_piece) = Some (TetrisPiece O_piece 3 0)
   \<and> valid_rotation (TetrisPiece O_piece 3 0)
   \<and> (\<exists>e'. lockPiece (sample_engine 10 20 single_board single_piece) = Some e'
         \<and> board e' = createEmptyBoard 10 19 @ [row_of ''X.........'']
         \<and> length (board e') = 20 \<and> lines e' = 1 \<and> combo e' = 1)"
proof -
  let ?E = "sample_engine 10 20 single_board single_piece"
  have h1: "currentPiece ?E = Some single_piece" by (simp add: sample_engine_def)
  have h2: "valid_rotation single_piece"
    by (simp add: valid_rotation_def single_piece_def shape_def PIECE_SHAPES_def)
  have h3: "height ?E \<le> length (board ?E)"
    by (simp add: sample_engine_def single_board_def createEmptyBoard_def)
  have h4: "list_all (\<lambda>row. width ?E \<le> length row) (take (height ?E) (board ?E))"
    by (simp add: sample_engine_def single_board_def createEmptyBoard_def row_of_def list_all_iff)
  have h5: "nextPiece ?E = Some (TetrisPiece O_piece 3 0)" by (simp add: sample_engine_def)
  have h6: "valid_rotation (TetrisPiece O_piece 3 0)"
    by (simp add: valid_rotation_def TetrisPiece_def shape_def PIECE_SHAPES_def)
  from lockPiece_line_clear[OF h1 h2 h3 h4 h5 h6] obtain blocks b1 e' where
    r: "getBlocks single_piece = Some blocks"
       "place_blocks (width ?E) (height ?E) (piece_cell single_piece) blocks (board ?E) = Some b1"
       "lockPiece ?E = Some e'"
       "board e' = replicate (length (filter is_full (take (height ?E) b1))) (replicate (width ?E) None)
                      @ filter (\<lambda>row. \<not> is_full row) (take (height ?E) b1) @ drop (height ?E) b1"
       "length (board e') = length (board ?E)"
       "lines e' = lines ?E + int (length (filter is_full (take (height ?E) b1)))"
       "combo e' = (if length (filter is_full (take (height ?E) b1)) \<ge> 1 then combo ?E + 1 else 0)"
    unfolding Let_def by blast
  from r(1) have bl: "blocks = [(4,19),(5,19),(6,19),(7,19)]" by (simp add: single_blocks)
  have wh: "width ?E = 10" "height ?E = 20" "board ?E = single_board" "lines ?E = 0" "combo ?E = 0"
    by (simp_all add: sample_engine_def)
  from r(2) have b1: "b1 = createEmptyBoard 10 18 @ [row_of ''X.........'',
        row_with (piece_cell single_piece) ''XXXXPPPPXX'']"
    unfolding bl wh single_place by simp
  have full: "filter is_full (take 20 b1) = [row_with (piece_cell single_piece) ''XXXXPPPPXX'']"
    and nonfull: "filter (\<lambda>row. \<not> is_full row) (take 20 b1) = createEmptyBoard 10 18 @ [row_of ''X.........'']"
    unfolding b1 by (simp_all add: createEmptyBoard_def row_of_def row_with_def is_full_def eval_nat_numeral)
  have "board e' = createEmptyBoard 10 19 @ [row_of ''X.........'']"
    using r(4) unfolding wh full nonfull
    by (simp add: createEmptyBoard_def b1 replicate_app_Cons_same eval_nat_numeral)
  moreover have "length (board e') = 20" using r(5) unfolding wh
    by (simp add: single_board_def createEmptyBoard_def)
  moreover have "lines e' = 1" "combo e' = 1" using r(6,7) unfolding wh full by simp_all
  ultimately show ?thesis using h1 h2 h3 h4 h5 h6 r(3) by blast
qed

section \<open>Locking a piece: score\<close>

text \<open>
  Claim C6. Under the same conditions \<^verbatim>\<open>lockPiece()\<close> adds to the score the base value times
  the level, where the base value is the table entry for the number of cleared lines
  (100/300/500/800 for 1 to 4 lines of a normal lock, 400/800/1200/1600 for 0 to 3 lines of
  a T-spin lock), plus \<open>50 * (combo - 1)\<close> when the combo counter exceeds 1, all times 10 when
  the board is empty after the clear. Cleared lines, combo, level and the emptiness of the
  board are the values after the clear. A lock without T-spin that clears 4 lines, with
  level 1, combo 1 and a board that is not empty afterwards, adds exactly 800.
\<close>

theorem lockPiece_score:
  assumes "currentPiece e = Some p" "valid_rotation p"
    "height e \<le> length (board e)"
    "list_all (\<lambda>row. width e \<le> length row) (take (height e) (board e))"
    "nextPiece e = Some np" "valid_rotation np"
  shows "\<exists>e'. lockPiece e = Some e'
     \<and> score e' = score e
          + (let base = score_table (lines e' - lines e) (lastClearWasTSpin e')
                        + (if combo e' > 1 then 50 * (combo e' - 1) else 0)
             in if isPerfectClear e' then base * 10 else base) * level e'
     \<and> map (\<lambda>k. score_table k False) [1, 2, 3, 4] = [100, 300, 500, 800]
     \<and> map (\<lambda>k. score_table k True) [0, 1, 2, 3] = [400, 800, 1200, 1600]
     \<and> (lines e' - lines e = 4 \<and> \<not> lastClearWasTSpin e' \<and> level e' = 1 \<and> combo e' = 1
            \<and> \<not> isPerfectClear e'
         \<longrightarrow> score e' = score e + 800)"
proof -
  from lockPiece_result[OF assms] obtain blocks b1 e' where
    r: "lockPiece e = Some e'"
       "lines e' = lines e + int (cleared_rows (height e) b1)"
       "lastClearWasTSpin e' = isTSpin p b1"
       "score e' = score e + lock_points (int (cleared_rows (height e) b1)) (isTSpin p b1)
                                 (combo e') (isPerfectClear e') * level e'"
    by blast
  from r(2) have k: "int (cleared_rows (height e) b1) = lines e' - lines e" by simp
  have s: "score e' = score e
          + (let base = score_table (lines e' - lines e) (lastClearWasTSpin e')
                        + (if combo e' > 1 then 50 * (combo e' - 1) else 0)
             in if isPerfectClear e' then base * 10 else base) * level e'"
    using r(4) unfolding k r(3)[symmetric] lock_points_def by simp
  have t: "map (\<lambda>k. score_table k False) [1, 2, 3, 4] = [100, 300, 500, 800]"
    "map (\<lambda>k. score_table k True) [0, 1, 2, 3] = [400, 800, 1200, 1600]"
    by (simp_all add: score_table_def)
  have "score e' = score e + 800"
    if "lines e' - lines e = 4" "\<not> lastClearWasTSpin e'" "level e' = 1" "combo e' = 1"
       "\<not> isPerfectClear e'"
    using s that by (simp add: score_table_def)
  with r(1) s t show ?thesis by auto
qed

theorem lockPiece_score_witness:
  "currentPiece (sample_engine 10 20 tetris_board tetris_piece) = Some tetris_piece
   \<and> valid_rotation tetris_piece
   \<and> height (sample_engine 10 20 tetris_board tetris_piece)
       \<le> length (board (sample_engine 10 20 tetris_board tetris_piece))
   \<and> list_all (\<lambda>row. width (sample_engine 10 20 tetris_board tetris_piece) \<le> length row)
        (take (height (sample_engine 10 20 tetris_board tetris_piece))
              (board (sample_engine 10 20 tetris_board tetris_piece)))
   \<and> nextPiece (sample_engine 10 20 tetris_board tetris_piece) = Some (TetrisPiece O_piece 3 0)
   \<and> valid_rotation (TetrisPiece O_piece 3 0)
   \<and> map_option (\<lambda>e'. (lines e', combo e', level e', lastClearWasTSpin e', isPerfectClear e', score e'))
        (lockPiece (sample_engine 10 20 tetris_board tetris_piece))
       = Some (4, 1, 1, False, False, 800)"
proof -
  let ?E = "sample_engine 10 20 tetris_board tetris_piece"
  have h1: "currentPiece ?E = Some tetris_piece" by (simp add: sample_engine_def)
  have h2: "valid_rotation tetris_piece"
    by (simp add: valid_rotation_def tetris_piece_def shape_def PIECE_SHAPES_def)
  have h3: "height ?E \<le> length (board ?E)"
    by (simp add: sample_engine_def tetris_board_def createEmptyBoard_def)
  have h4: "list_all (\<lambda>row. width ?E \<le> length row) (take (height ?E) (board ?E))"
    by (simp add: sample_engine_def tetris_board_def createEmptyBoard_def row_of_def list_all_iff)
  have h5: "nextPiece ?E = Some (TetrisPiece O_piece 3 0)" by (simp add: sample_engine_def)
  have h6: "valid_rotation (TetrisPiece O_piece 3 0)"
    by (simp add: valid_rotation_def TetrisPiece_def shape_def PIECE_SHAPES_def)
  from lockPiece_score[OF h1 h2 h3 h4 h5 h6] obtain e' where
    r: "lockPiece ?E = Some e'"
       "lines e' - lines ?E = 4 \<and> \<not> lastClearWasTSpin e' \<and> level e' = 1 \<and> combo e' = 1
            \<and> \<not> isPerfectClear e'
         \<longrightarrow> score e' = score ?E + 800"
    by blast
  from lockPiece_result[OF h1 h2 h3 h4 h5 h6] r(1) obtain blocks b1 where
    q: "getBlocks tetris_piece = Some blocks"
       "place_blocks (width ?E) (height ?E) (piece_cell tetris_piece) blocks (board ?E) = Some b1"
       "board e' = cleared_board (width ?E) (height ?E) b1"
       "lines e' = lines ?E + int (cleared_rows (height ?E) b1)"
       "combo e' = (if cleared_rows (height ?E) b1 = 0 then 0 else combo ?E + 1)"
       "lastClearWasTSpin e' = isTSpin tetris_piece b1"
       "level e' = (if cleared_rows (height ?E) b1 = 0 then level ?E
                    else max (level ?E) (lines e' div 10 + 1))"
    by auto
  have wh: "width ?E = 10" "height ?E = 20" "board ?E = tetris_board" "lines ?E = 0" "combo ?E = 0"
    "score ?E = 0" "level ?E = 1"
    by (simp_all add: sample_engine_def)
  from q(1) have bl: "blocks = [(4,16),(4,17),(4,18),(4,19)]" by (simp add: tetris_blocks)
  from q(2) have b1: "b1 = createEmptyBoard 10 15 @ [row_of ''X.........'']
        @ replicate 4 (row_with (piece_cell tetris_piece) ''XXXXPXXXXX'')"
    unfolding bl wh tetris_place by simp
  have k: "cleared_rows 20 b1 = 4"
    unfolding b1 cleared_rows_def
    by (simp add: createEmptyBoard_def row_of_def row_with_def is_full_def eval_nat_numeral)
  have cb: "cleared_board 10 20 b1 = createEmptyBoard 10 19 @ [row_of ''X.........'']"
    unfolding cleared_board_def k unfolding b1
    by (simp add: createEmptyBoard_def row_of_def row_with_def is_full_def eval_nat_numeral)
  have f1: "lines e' = 4" "combo e' = 1" using q(4,5) unfolding wh k by simp_all
  have f2: "\<not> lastClearWasTSpin e'" using q(6) by (simp add: isTSpin_def tetris_piece_def)
  have f3: "\<not> isPerfectClear e'" using q(3) unfolding wh cb
    by (simp add: isPerfectClear_def row_of_def)
  have f4: "level e' = 1" using q(7) unfolding wh k f1 by simp
  from r(2) f1 f2 f3 f4 have "score e' = 800" unfolding wh by simp
  with r(1) f1 f2 f3 f4 h1 h2 h3 h4 h5 h6 show ?thesis by simp
qed

section \<open>Rotation\<close>

text \<open>
  Claim C2. For a direction of 1 or -1, a current piece with a rotation index of its shape
  table, a running game and a board with at least \<open>height\<close> rows, \<^verbatim>\<open>rotatePiece(direction)\<close>
  returns. Its target index is \<open>(rotation + direction) mod\<close> the number of rotations of the
  piece; the offsets come from \<^verbatim>\<open>getWallKickData\<close>, the first of them being \<open>(0, 0)\<close>; the
  first offset, in list order, whose placement does not collide is applied to the piece
  (with the new rotation) and the result is true; if every offset collides the result is
  false and the engine is exactly the engine before the call.
\<close>

theorem rotatePiece_first_fit:
  assumes "currentPiece e = Some p" "\<not> gameOver e" "direction = 1 \<or> direction = -1"
    "valid_rotation p" "height e \<le> length (board e)"
  shows "rotatePiece direction e =
     Some (let newRotation = (rotation p + direction) mod int (length (shape p));
               kickData = getWallKickData (ptype p) (rotation p) newRotation
           in case List.find (\<lambda>k. colliding (width e) (height e) (board e)
                                  (kicked (p\<lparr>rotation := newRotation\<rparr>) k) = Some False) kickData of
                None \<Rightarrow> (e, False)
              | Some k \<Rightarrow> (resetLockTimer (e\<lparr>currentPiece := Some (kicked (p\<lparr>rotation := newRotation\<rparr>) k)\<rparr>), True))
     \<and> hd (getWallKickData (ptype p) (rotation p) ((rotation p + direction) mod int (length (shape p)))) = (0, 0)"
proof -
  let ?len = "int (length (shape p))"
  let ?r = "(rotation p + direction) mod ?len"
  have len: "0 < ?len" by (simp add: length_shape)
  from assms(3,4) have nn: "0 \<le> rotation p + direction + ?len"
    by (auto simp: valid_rotation_def)
  have r: "js_rem (rotation p + direction + ?len) ?len = ?r"
    using js_rem_nonneg[OF nn len] by simp
  let ?q = "p\<lparr>rotation := ?r\<rparr>"
  let ?e1 = "e\<lparr>currentPiece := Some ?q\<rparr>"
  have vq: "valid_rotation ?q" using len by (simp add: valid_rotation_def shape_def)
  have tk: "try_kicks ?e1 ks =
     Some (case List.find (\<lambda>k. colliding (width ?e1) (height ?e1) (board ?e1) (kicked ?q k) = Some False) ks of
             None \<Rightarrow> (?e1, False)
           | Some k \<Rightarrow> (resetLockTimer (?e1\<lparr>currentPiece := Some (kicked ?q k)\<rparr>), True))" for ks
    using try_kicks_find[of ?e1 ?q ks] vq assms(5) by simp
  have restore: "?e1\<lparr>currentPiece := map_option (\<lambda>q. q\<lparr>rotation := rotation p\<rparr>) (currentPiece ?e1)\<rparr> = e"
    using assms(1) by (simp add: set_currentPiece_same)
  have main: "rotatePiece direction e =
     Some (case List.find (\<lambda>k. colliding (width e) (height e) (board e) (kicked ?q k) = Some False)
                 (getWallKickData (ptype p) (rotation p) ?r) of
                None \<Rightarrow> (e, False)
              | Some k \<Rightarrow> (resetLockTimer (e\<lparr>currentPiece := Some (kicked ?q k)\<rparr>), True))"
    using assms(1,2) restore
    by (simp add: rotatePiece_def Let_def r tk split: option.splits)
  have "hd (getWallKickData (ptype p) (rotation p) ?r) = (0, 0)"
    by (simp add: getWallKickData_def Let_def)
  with main show ?thesis by (simp add: Let_def)
qed

theorem rotatePiece_first_fit_witness:
  "currentPiece (sample_engine 10 20 kick_board (TetrisPiece T_piece 3 0)) = Some (TetrisPiece T_piece 3 0)
   \<and> \<not> gameOver (sample_engine 10 20 kick_board (TetrisPiece T_piece 3 0))
   \<and> valid_rotation (TetrisPiece T_piece 3 0)
   \<and> height (sample_engine 10 20 kick_board (TetrisPiece T_piece 3 0))
       \<le> length (board (sample_engine 10 20 kick_board (TetrisPiece T_piece 3 0)))
   \<and> rotatePiece 1 (sample_engine 10 20 kick_board (TetrisPiece T_piece 3 0))
       = Some (resetLockTimer ((sample_engine 10 20 kick_board (TetrisPiece T_piece 3 0))
                 \<lparr>currentPiece := Some \<lparr>ptype = T_piece, px = 2, py = 0, rotation = 1\<rparr>\<rparr>), True)"
proof -
  let ?P = "TetrisPiece T_piece 3 0"
  let ?E = "sample_engine 10 20 kick_board ?P"
  have h1: "currentPiece ?E = Some ?P" by (simp add: sample_engine_def)
  have h2: "\<not> gameOver ?E" by (simp add: sample_engine_def)
  have h3: "(1::int) = 1 \<or> (1::int) = -1" by simp
  have h4: "valid_rotation ?P"
    by (simp add: valid_rotation_def TetrisPiece_def shape_def PIECE_SHAPES_def)
  have h5: "height ?E \<le> length (board ?E)"
    by (simp add: sample_engine_def kick_board_def createEmptyBoard_def)
  have wh: "width ?E = 10" "height ?E = 20" "board ?E = kick_board"
    by (simp_all add: sample_engine_def)
  have sh: "int (length (shape ?P)) = 4" "ptype ?P = T_piece" "rotation ?P = 0"
    by (simp_all add: TetrisPiece_def shape_def PIECE_SHAPES_def)
  have c0: "colliding 10 20 kick_board (kicked (?P\<lparr>rotation := 1\<rparr>) (0, 0)) = Some True"
    by (simp add: colliding_def getBlocks_def getCurrentShape_def shape_def PIECE_SHAPES_def
        TetrisPiece_def kicked_def upt_rec kick_board_def createEmptyBoard_def row_of_def
        nth_append eval_nat_numeral)
  have c1: "colliding 10 20 kick_board (kicked (?P\<lparr>rotation := 1\<rparr>) (-1, 0)) = Some False"
    by (simp add: colliding_def getBlocks_def getCurrentShape_def shape_def PIECE_SHAPES_def
        TetrisPiece_def kicked_def upt_rec kick_board_def createEmptyBoard_def row_of_def
        nth_append eval_nat_numeral)
  have k: "getWallKickData T_piece 0 1 = [(0,0), (-1,0), (-1,1), (0,-2), (-1,-2)]"
    by (simp add: getWallKickData_def WALL_KICK_JLSTZ_def)
  have "rotatePiece 1 ?E
       = Some (resetLockTimer (?E\<lparr>currentPiece := Some \<lparr>ptype = T_piece, px = 2, py = 0, rotation = 1\<rparr>\<rparr>), True)"
    using rotatePiece_first_fit[OF h1 h2 h3 h4 h5]
    unfolding wh sh Let_def by (simp add: k c0 c1) (simp add: kicked_def TetrisPiece_def)
  with h1 h2 h4 h5 show ?thesis by blast
qed

section \<open>Receiving an attack\<close>

text \<open>
  Claim C4. Let the width be positive, the random values be doubles in \<open>[0,1)\<close>, the board
  have at least \<open>height\<close> rows and the current piece (if any) have a rotation index of its
  shape table. For \<open>n \<le> 0\<close>, \<^verbatim>\<open>receiveAttack(n)\<close> leaves the engine unchanged. For \<open>n > 0\<close> it
  returns; the new board is the old board without its first \<open>n\<close> rows (all rows, when there
  are fewer than \<open>n\<close>) followed by \<open>n\<close> garbage rows; row \<open>i\<close> of them is a full row of garbage
  cells with the one cell at column \<open>floor (r\<^sub>i * width)\<close> empty, \<open>r\<^sub>i\<close> being the \<open>i\<close>-th random
  value drawn and the product the rounded product of doubles; so each has \<open>width\<close> cells,
  exactly one empty and \<open>width - 1\<close> occupied; \<open>gameOver\<close> is set exactly when it was set
  before or the current piece collides with the new board; and the number of rows is
  unchanged when the board had at least \<open>n\<close> rows. With \<^verbatim>\<open>Math.random()\<close> returning
  \<^verbatim>\<open>0.7\<close> and width 10 the hole is column 7: the product rounds to the double 7.
\<close>

theorem receiveAttack_garbage:
  assumes "0 < width e" "unit_draws (random e)" "height e \<le> length (board e)"
    "case currentPiece e of None \<Rightarrow> True | Some p \<Rightarrow> valid_rotation p"
  shows "(n \<le> 0 \<longrightarrow> receiveAttack n e = Some e)
     \<and> (0 < n \<longrightarrow> (\<exists>e' garbage. receiveAttack n e = Some e'
           \<and> board e' = drop (nat n) (board e) @ garbage
           \<and> garbage = map (\<lambda>i. (replicate (width e) (Some garbage_cell))
                                   [hole_of (width e) (random e i) := None]) [0..<nat n]
           \<and> length garbage = nat n
           \<and> list_all (\<lambda>row. length row = width e
                            \<and> length (filter (\<lambda>c. c = None) row) = 1
                            \<and> length (filter (\<lambda>c. c \<noteq> None) row) = width e - 1) garbage
           \<and> gameOver e' = (gameOver e \<or> (\<exists>p. currentPiece e = Some p
                   \<and> colliding (width e) (height e) (board e') p = Some True))
           \<and> (nat n \<le> length (board e) \<longrightarrow> length (board e') = length (board e))))"
proof -
  let ?g = "map (\<lambda>i. (replicate (width e) (Some garbage_cell))
                                   [hole_of (width e) (random e i) := None]) [0..<nat n]"
  let ?b = "drop (nat n) (board e) @ ?g"
  let ?e1 = "e\<lparr>board := ?b, random := (\<lambda>i. random e (i + nat n))\<rparr>"
  have holes: "hole_of (width e) (random e i) < width e" for i
  proof -
    have "unit_draws (\<lambda>j. random e (j + i))" using assms(2) by (simp add: unit_draws_def)
    from random_below_less[OF this assms(1)] show ?thesis
      by (simp add: random_below_def hole_of_def)
  qed
  have shape_ok: "list_all (\<lambda>row. length row = width e
                            \<and> length (filter (\<lambda>c. c = None) row) = 1
                            \<and> length (filter (\<lambda>c. c \<noteq> None) row) = width e - 1) ?g"
    using garbage_row_shape[OF holes, of garbage_cell] by (simp add: list_all_iff)
  have len: "height e \<le> length ?b" using assms(3) by simp
  have pg: "push_garbage (nat n) (width e) ((shift ^^ nat n) (board e)) (random e)
            = Some (?b, (\<lambda>i. random e (i + nat n)))"
    using push_garbage_result[OF assms(2,1)] by (simp add: shift_funpow)
  have pos: "\<exists>e'. receiveAttack n e = Some e' \<and> board e' = ?b
            \<and> gameOver e' = (gameOver e \<or> (\<exists>p. currentPiece e = Some p
                   \<and> colliding (width e) (height e) (board e') p = Some True))"
    if n: "0 < n"
  proof (cases "currentPiece e")
    case None
    with n pg show ?thesis by (simp add: receiveAttack_def isColliding_def)
  next
    case (Some p)
    with assms(4) have "valid_rotation p" by simp
    from colliding_total[OF len this, of "width e"] obtain c
      where c: "colliding (width e) (height e) ?b p = Some c" by blast
    with n pg Some show ?thesis
      by (cases c) (simp_all add: receiveAttack_def isColliding_def)
  qed
  have "n \<le> 0 \<longrightarrow> receiveAttack n e = Some e" by (simp add: receiveAttack_def)
  with pos shape_ok show ?thesis by auto
qed

theorem receiveAttack_garbage_witness:
  "0 < width attacked_engine
   \<and> unit_draws (random attacked_engine)
   \<and> height attacked_engine \<le> length (board attacked_engine)
   \<and> (case currentPiece attacked_engine of None \<Rightarrow> True | Some p \<Rightarrow> valid_rotation p)
   \<and> (0::int) < 2
   \<and> (\<exists>e'. receiveAttack 2 attacked_engine = Some e'
         \<and> board e' = createEmptyBoard 10 18 @ [row_of ''XXXXXXX.XX'', row_of ''XXXXXXX.XX'']
         \<and> gameOver e')"
proof -
  let ?E = "attacked_engine"
  have h1: "0 < width ?E" by (simp add: attacked_engine_def sample_engine_def)
  have h2: "unit_draws (random ?E)"
    by (simp add: attacked_engine_def sample_engine_def unit_draws_def constant_draws_def
        unit_double_0_7)
  have h3: "height ?E \<le> length (board ?E)"
    by (simp add: attacked_engine_def sample_engine_def createEmptyBoard_def)
  have h4: "case currentPiece ?E of None \<Rightarrow> True | Some p \<Rightarrow> valid_rotation p"
    by (simp add: attacked_engine_def sample_engine_def valid_rotation_def low_piece_def
        shape_def PIECE_SHAPES_def)
  have wh: "width ?E = 10" "height ?E = 20" "board ?E = createEmptyBoard 10 20"
    "currentPiece ?E = Some low_piece" "random ?E = constant_draws double_0_7"
    by (simp_all add: attacked_engine_def sample_engine_def)
  have h5: "(0::int) < 2" by simp
  from receiveAttack_garbage[OF h1 h2 h3 h4, of 2] h5 obtain e' garbage where
    r: "receiveAttack 2 ?E = Some e'"
       "board e' = drop (nat 2) (board ?E) @ garbage"
       "garbage = map (\<lambda>i. (replicate (width ?E) (Some garbage_cell))
                                   [hole_of (width ?E) (random ?E i) := None]) [0..<nat 2]"
       "gameOver e' = (gameOver ?E \<or> (\<exists>p. currentPiece ?E = Some p
                   \<and> colliding (width ?E) (height ?E) (board e') p = Some True))"
    by blast
  have hole: "hole_of 10 double_0_7 = 7"
    using floor_0_7_times_10 by (simp add: hole_of_def)
  have g: "garbage = [row_of ''XXXXXXX.XX'', row_of ''XXXXXXX.XX'']"
    unfolding r(3) wh constant_draws_def hole
    by (simp add: row_of_def eval_nat_numeral upt_rec)
  have b: "board e' = createEmptyBoard 10 18 @ [row_of ''XXXXXXX.XX'', row_of ''XXXXXXX.XX'']"
    unfolding r(2) g wh by (simp add: createEmptyBoard_def)
  have "colliding 10 20 (board e') low_piece = Some True"
    unfolding b
    by (simp add: colliding_def getBlocks_def getCurrentShape_def shape_def PIECE_SHAPES_def
        low_piece_def upt_rec createEmptyBoard_def row_of_def nth_append eval_nat_numeral)
  with r(4) have "gameOver e'" unfolding wh by simp
  with h1 h2 h3 h4 r(1) b show ?thesis by simp
qed

section \<open>Holding a piece\<close>

text \<open>
  Claim C10, at the input where the code departs from it. On a newly constructed engine
  nothing is held, \<open>canHold\<close> is true and the game is running; the call
  \<^verbatim>\<open>engine.holdPiece()\<close> throws instead of storing the current piece. With a piece stored in
  the field, the state the claim starts from, the call throws as well: it returns neither
  true nor false, and no piece is swapped.
\<close>

theorem holdPiece_call_throws:
  "map_option (\<lambda>e. (holdPiece e, canHold e, gameOver e, holdPiece_call e,
                      holdPiece_call (e\<lparr>holdPiece := Some (TetrisPiece I_piece 3 0)\<rparr>)))
     (TetrisGameEngine 10 20 (constant_draws (double_of_int 0)))
   = Some (None, True, False, None, None)"
  by (simp add: TetrisGameEngine_def refillBag_def pieces_def random_below_zero swap_def
      eval_nat_numeral initializeGame_def getNext_def
      spawnNewPiece_def Let_def createEmptyBoard_def TetrisPiece_def isColliding_def
      colliding_def getBlocks_def getCurrentShape_def shape_def PIECE_SHAPES_def upt_rec
      holdPiece_call_def)

section \<open>After the game is over\<close>

text \<open>\<^verbatim>\<open>movePiece\<close> tests \<^verbatim>\<open>this.gameOver\<close> on entry and returns false.\<close>

lemma movePiece_gameOver: "gameOver e \<Longrightarrow> movePiece dx dy e = Some (e, False)"
  by (simp add: movePiece_def split: option.splits)

text \<open>
  Claim C1, at the input where the code departs from it. \<^verbatim>\<open>lockPiece()\<close> tests only
  \<^verbatim>\<open>this.currentPiece\<close>, not \<^verbatim>\<open>this.gameOver\<close>. In the running game \<open>before_over\<close> a first
  \<^verbatim>\<open>lockPiece()\<close> spawns a piece that collides and sets \<open>gameOver\<close>, the cell in row 1,
  column 3 being empty; a second \<^verbatim>\<open>lockPiece()\<close>, on the finished game, writes the spawned
  piece into the board and fills that cell.
\<close>

theorem lockPiece_after_gameOver:
  "map_option (\<lambda>g. (gameOver g, board g ! 1 ! 3)) (lockPiece before_over) = Some (True, None)
   \<and> map_option (\<lambda>g. (gameOver g, board g ! 1 ! 3)) (Option.bind (lockPiece before_over) lockPiece)
       = Some (True, Some \<lparr>cell_color = ''#00ffff'', cell_type = Of_piece I_piece\<rparr>)"
  by code_simp

section \<open>Executing the chosen move\<close>

lemma rotate_until_stuck:
  assumes "currentPiece e = Some p" "rotation p \<noteq> target" "rotatePiece 1 e = Some (e, False)"
  shows "rotate_until target e = None"
proof (rule ccontr)
  assume "rotate_until target e \<noteq> None"
  then obtain r where r: "rotate_until target e = Some r" by auto
  have key: "\<not> (t = target \<and> s = e)" if h: "rotate_until t s = Some r'" for t s r'
  proof (rule rotate_until.raw_induct[where P = "\<lambda>t s r'. \<not> (t = target \<and> s = e)", OF _ h])
    fix f :: "int \<Rightarrow> engine \<Rightarrow> engine option option" and t s r'
    assume IH: "\<And>t s r'. f t s = Some r' \<Longrightarrow> \<not> (t = target \<and> s = e)"
      and step: "(case currentPiece s of
                    None \<Rightarrow> Some None
                  | Some p \<Rightarrow>
                      if rotation p \<noteq> t
                      then (case rotatePiece 1 s of
                              None \<Rightarrow> Some None
                            | Some (e', ok) \<Rightarrow> f t e')
                      else Some (Some s)) = Some r'"
    show "\<not> (t = target \<and> s = e)"
    proof
      assume "t = target \<and> s = e"
      with step assms have "f target e = Some r'" by simp
      from IH[OF this] show False by simp
    qed
  qed
  from key[OF r] show False by simp
qed

lemma stuck_rotation_fails: "rotatePiece 1 stuck_engine = Some (stuck_engine, False)"
proof -
  let ?P = "TetrisPiece I_piece 3 0"
  have f: "currentPiece stuck_engine = Some ?P" "\<not> gameOver stuck_engine"
    "width stuck_engine = 10" "height stuck_engine = 20" "board stuck_engine = stuck_board"
    by (simp_all add: stuck_engine_def sample_engine_def)
  have v: "valid_rotation (?P\<lparr>rotation := 1\<rparr>)"
    by (simp add: valid_rotation_def TetrisPiece_def shape_def PIECE_SHAPES_def)
  have h: "height (stuck_engine\<lparr>currentPiece := Some (?P\<lparr>rotation := 1\<rparr>)\<rparr>)
           \<le> length (board (stuck_engine\<lparr>currentPiece := Some (?P\<lparr>rotation := 1\<rparr>)\<rparr>))"
    using f by (simp add: stuck_board_def createEmptyBoard_def)
  have k: "getWallKickData I_piece 0 1 = [(0,0), (-2,0), (1,0), (-2,-1), (1,2)]"
    by (simp add: getWallKickData_def WALL_KICK_I_def)
  have c: "colliding 10 20 stuck_board (kicked (?P\<lparr>rotation := 1\<rparr>) (0, 0)) = Some True"
    "colliding 10 20 stuck_board (kicked (?P\<lparr>rotation := 1\<rparr>) (-2, 0)) = Some True"
    "colliding 10 20 stuck_board (kicked (?P\<lparr>rotation := 1\<rparr>) (1, 0)) = Some True"
    "colliding 10 20 stuck_board (kicked (?P\<lparr>rotation := 1\<rparr>) (-2, -1)) = Some True"
    "colliding 10 20 stuck_board (kicked (?P\<lparr>rotation := 1\<rparr>) (1, 2)) = Some True"
    by (simp_all add: colliding_def getBlocks_def getCurrentShape_def shape_def PIECE_SHAPES_def
        TetrisPiece_def kicked_def upt_rec stuck_board_def createEmptyBoard_def row_of_def
        nth_append eval_nat_numeral)
  have tk: "try_kicks (stuck_engine\<lparr>currentPiece := Some (?P\<lparr>rotation := 1\<rparr>)\<rparr>)
              [(0,0), (-2,0), (1,0), (-2,-1), (1,2)]
            = Some (stuck_engine\<lparr>currentPiece := Some (?P\<lparr>rotation := 1\<rparr>)\<rparr>, False)"
    using try_kicks_find[OF _ v h, of "[(0,0), (-2,0), (1,0), (-2,-1), (1,2)]"] f c
    by simp
  have js: "js_rem 5 4 = 1" by (simp add: js_rem_def)
  have sh: "length (shape ?P) = 4" "ptype ?P = I_piece" "rotation ?P = 0"
    by (simp_all add: TetrisPiece_def shape_def PIECE_SHAPES_def)
  have rs: "?P\<lparr>rotation := 1, rotation := 0\<rparr> = ?P" by (simp add: TetrisPiece_def)
  show ?thesis
    using f by (simp add: rotatePiece_def Let_def sh js k tk rs set_currentPiece_same
                  del: try_kicks.simps)
qed

text \<open>
  The state \<open>stuck_engine\<close> is what the constructor and one attack of eighteen rows give.
\<close>

lemma stuck_engine_reached:
  "Option.bind (TetrisGameEngine 10 20 (constant_draws (double_of_int 0))) (receiveAttack 18)
   = Some stuck_engine"
proof -
  have "TetrisGameEngine 10 20 (constant_draws (double_of_int 0))
        = Some ((sample_engine 10 20 (createEmptyBoard 10 20) (TetrisPiece I_piece 3 0))
                  \<lparr>nextPiece := Some (TetrisPiece L_piece 3 0),
                   pieceGenerator := \<lparr>bag = [O_piece, T_piece, S_piece, Z_piece, J_piece]\<rparr>\<rparr>)"
    by (simp add: TetrisGameEngine_def refillBag_def pieces_def random_below_zero swap_def
        eval_nat_numeral initializeGame_def getNext_def sample_engine_def
        spawnNewPiece_def Let_def createEmptyBoard_def TetrisPiece_def isColliding_def
        colliding_def getBlocks_def getCurrentShape_def shape_def PIECE_SHAPES_def upt_rec)
  then show ?thesis
    by (simp add: receiveAttack_def random_below_zero garbageLine_def shift_def
        stuck_engine_def sample_engine_def stuck_board_def row_of_def createEmptyBoard_def
        TetrisPiece_def isColliding_def colliding_def getBlocks_def getCurrentShape_def
        shape_def PIECE_SHAPES_def upt_rec nth_append eval_nat_numeral garbage_cell_def)
qed

text \<open>
  The search on that state, one rotation after the other. With rotation 0 (and 2) the
  piece can only be laid on top of the garbage; with rotation 1, at \<open>x = -2\<close>, it falls
  into the well of column 0 and clears four rows, which scores best; rotation 3 reaches the
  same cells with the same score, which is not greater.
\<close>

lemma stuck_search_rotation_0:
  "search_xs (getAIParams Medium) stuck_engine (TetrisPiece I_piece 3 0) 0 [-2 .. 11] None
   = Some (Some \<lparr>move_x = 6, move_y = 0, move_rotation = 0,
                  move_score = (- 906124245026943744, 54)\<rparr>)"
  by code_simp

lemma stuck_search_rotation_1:
  "search_xs (getAIParams Medium) stuck_engine (TetrisPiece I_piece 3 0) 1 [-2 .. 11]
     (Some \<lparr>move_x = 6, move_y = 0, move_rotation = 0,
             move_score = (- 906124245026943744, 54)\<rparr>)
   = Some (Some \<lparr>move_x = -2, move_y = 16, move_rotation = 1,
                  move_score = (- 392713887506707264, 54)\<rparr>)"
  by code_simp

lemma stuck_search_rotation_2:
  "search_xs (getAIParams Medium) stuck_engine (TetrisPiece I_piece 3 0) 2 [-2 .. 11]
     (Some \<lparr>move_x = -2, move_y = 16, move_rotation = 1,
             move_score = (- 392713887506707264, 54)\<rparr>)
   = Some (Some \<lparr>move_x = -2, move_y = 16, move_rotation = 1,
                  move_score = (- 392713887506707264, 54)\<rparr>)"
  by code_simp

lemma stuck_search_rotation_3:
  "search_xs (getAIParams Medium) stuck_engine (TetrisPiece I_piece 3 0) 3 [-2 .. 11]
     (Some \<lparr>move_x = -2, move_y = 16, move_rotation = 1,
             move_score = (- 392713887506707264, 54)\<rparr>)
   = Some (Some \<lparr>move_x = -2, move_y = 16, move_rotation = 1,
                  move_score = (- 392713887506707264, 54)\<rparr>)"
  by code_simp

lemma stuck_best_move:
  "findBestMove (getAIParams Medium) stuck_engine
   = Some (Some \<lparr>move_x = -2, move_y = 16, move_rotation = 1,
                  move_score = (- 392713887506707264, 54)\<rparr>)"
proof -
  have cp: "currentPiece stuck_engine = Some (TetrisPiece I_piece 3 0)"
    and w: "int (width stuck_engine) + 1 = 11"
    by (simp_all add: stuck_engine_def sample_engine_def)
  have "int (length (shape (TetrisPiece I_piece 3 0))) - 1 = 3"
    by (simp add: shape_def TetrisPiece_def PIECE_SHAPES_def)
  then have rots: "[0 .. int (length (shape (TetrisPiece I_piece 3 0))) - 1] = [0, 1, 2, 3]"
    by (simp add: upto_rec1)
  have "search_rotations (getAIParams Medium) stuck_engine (TetrisPiece I_piece 3 0) [0, 1, 2, 3] None
        = Some (Some \<lparr>move_x = -2, move_y = 16, move_rotation = 1,
                       move_score = (- 392713887506707264, 54)\<rparr>)"
    by (simp only: search_rotations.simps w stuck_search_rotation_0 stuck_search_rotation_1
          stuck_search_rotation_2 stuck_search_rotation_3 Option.bind.simps)
  then show ?thesis
    by (simp add: findBestMove_def cp rots)
qed

text \<open>
  Claim C8, at the input where the code departs from it. A new engine (the default 10 by 20
  board of an AI player, \<^verbatim>\<open>Math.random()\<close> returning 0) receives an attack of eighteen rows
  and is in the state \<open>stuck_engine\<close>, the game still running. There
  \<^verbatim>\<open>rotatePiece(1)\<close> returns false and leaves the engine exactly as it was: every wall-kick
  position of the upright I piece meets the garbage rows. \<^verbatim>\<open>findBestMove()\<close> (difficulty
  medium, the default) returns the move \<open>x = -2\<close>, \<open>y = 16\<close>, rotation 1. In
  \<^verbatim>\<open>executeBestMove(move)\<close> the loop
  \<^verbatim>\<open>while (currentPiece.rotation !== move.rotation) this.gameEngine.rotatePiece(1)\<close> then
  finds rotation 0, calls \<^verbatim>\<open>rotatePiece(1)\<close>, and is back in the same state: it never ends
  (the value \<open>None\<close> of \<open>executeBestMove\<close>).
\<close>

theorem executeBestMove_diverges:
  "Option.bind (TetrisGameEngine 10 20 (constant_draws (double_of_int 0))) (receiveAttack 18)
     = Some stuck_engine
   \<and> \<not> gameOver stuck_engine
   \<and> map_option rotation (currentPiece stuck_engine) = Some 0
   \<and> rotatePiece 1 stuck_engine = Some (stuck_engine, False)
   \<and> (\<exists>mv. findBestMove (getAIParams Medium) stuck_engine = Some (Some mv)
          \<and> move_x mv = -2 \<and> move_y mv = 16 \<and> move_rotation mv = 1
          \<and> executeBestMove mv stuck_engine = None)"
proof -
  let ?mv = "\<lparr>move_x = -2, move_y = 16, move_rotation = 1,
              move_score = (- 392713887506707264, 54)\<rparr>"
  have cp: "currentPiece stuck_engine = Some (TetrisPiece I_piece 3 0)"
    and go: "\<not> gameOver stuck_engine"
    by (simp_all add: stuck_engine_def sample_engine_def)
  have r0: "rotation (TetrisPiece I_piece 3 0) = 0" by (simp add: TetrisPiece_def)
  then have "rotation (TetrisPiece I_piece 3 0) \<noteq> move_rotation ?mv" by simp
  from rotate_until_stuck[OF cp this stuck_rotation_fails]
  have "executeBestMove ?mv stuck_engine = None"
    by (simp add: executeBestMove_def cp)
  with stuck_best_move have
    "\<exists>mv. findBestMove (getAIParams Medium) stuck_engine = Some (Some mv)
          \<and> move_x mv = -2 \<and> move_y mv = 16 \<and> move_rotation mv = 1
          \<and> executeBestMove mv stuck_engine = None"
    by (intro exI[of _ ?mv]) simp
  with stuck_engine_reached go cp r0 stuck_rotation_fails show ?thesis by simp
qed

section \<open>Preview of the generator\<close>

text \<open>
  While the request stays inside the bag, the preview is what the next draws give, and
  neither the bag nor the random state is touched.
\<close>

lemma preview_loop_within_bag:
  "n \<le> length tb \<Longrightarrow> preview_loop n tb acc r = (acc @ take n (rev tb), r)"
proof (induction n arbitrary: tb acc)
  case 0
  then show ?case by simp
next
  case (Suc n)
  then obtain xs x where tb: "tb = xs @ [x]"
    by (cases tb rule: rev_cases) auto
  with Suc show ?case by simp
qed

lemma preview_within_bag:
  "n \<le> length (bag g) \<Longrightarrow> preview n g r = (take n (rev (bag g)), g, r)"
  by (simp add: preview_def preview_loop_within_bag)

lemma draw_types_within_bag:
  "n \<le> length (bag g) \<Longrightarrow>
   draw_types n g r = (take n (rev (bag g)), g\<lparr>bag := take (length (bag g) - n) (bag g)\<rparr>, r)"
proof (induction n arbitrary: g)
  case 0
  then show ?case by simp
next
  case (Suc n)
  then obtain xs x where b: "bag g = xs @ [x]"
    by (cases "bag g" rule: rev_cases) auto
  with Suc.prems have n: "n \<le> length (bag (g\<lparr>bag := xs\<rparr>))" by simp
  from Suc.IH[OF n] b show ?case
    by (simp add: getNext_def TetrisPiece_def)
qed

text \<open>
  Claim C7, at the input where the code departs from it. The bag is empty (seven pieces
  have been drawn). \<^verbatim>\<open>preview(1)\<close> shuffles its own copy with the next six random values and
  answers I; the bag is unchanged; the draw that follows refills the bag with the six random
  values after those and gives L.
\<close>

theorem preview_past_bag_differs:
  "fst (preview 1 \<lparr>bag = []\<rparr> two_phase_draws) = [I_piece]
   \<and> fst (snd (preview 1 \<lparr>bag = []\<rparr> two_phase_draws)) = \<lparr>bag = []\<rparr>
   \<and> fst (draw_types 1 \<lparr>bag = []\<rparr> (snd (snd (preview 1 \<lparr>bag = []\<rparr> two_phase_draws)))) = [L_piece]"
  by (simp add: preview_def two_phase_draws_def pieces_def random_below_def swap_def next_rng_def
      getNext_def refillBag_def TetrisPiece_def eval_nat_numeral Let_def
      floor_zero_times floor_0_99_times)

end
